theory Spec2Isabelle
  imports Main
begin

section \<open>Template AST\<close>

text \<open>
  An AST node is a JavaScript object.  The scalar properties a node carries (\<open>pre\<close>,
  \<open>if\<close>, \<open>for\<close>, \<open>once\<close>, \<open>hasBindings\<close>, \<open>slotScope\<close>, \<open>static\<close>, \<open>staticRoot\<close>,
  \<open>text\<close>, ...) are kept in a property list in insertion order, so that
  \<open>Object.keys(node)\<close> and a property being absent can both be expressed.  The
  structural properties of an element (\<open>tag\<close>, \<open>attrsMap\<close>, \<open>children\<close>,
  \<open>ifConditions\<close>, \<open>scopedSlots\<close>) are constructor arguments.  \<open>type\<close> is the
  constructor: element = 1, expression = 2, text = 3.

  \<open>ifConditions[0]\<close> of an element is \<open>{exp: el.if, block: el}\<close>, the element itself;
  the field \<open>ifConditions\<close> of the model holds the entries from index 1 on (the
  \<open>v-else-if\<close> and \<open>v-else\<close> blocks), which are the ones the loops of the optimizer
  visit, and is \<open>None\<close> when the property is absent.  The \<open>parent\<close> back-reference is
  not stored: the functions that read it take the chain of ancestors as an argument.
\<close>

datatype propval = PUndefined | PBool bool | PStr string

type_synonym props = "(string \<times> propval) list"

datatype ASTNode =
    ASTElement string "(string \<times> string) list" props "ASTNode list"
      "(string option \<times> ASTNode) list option" "(string \<times> ASTNode) list"
  | ASTExpression props
  | ASTText props

fun nodeType :: "ASTNode \<Rightarrow> nat" where
  "nodeType (ASTElement tg am ps ch ic ss) = 1"
| "nodeType (ASTExpression ps) = 2"
| "nodeType (ASTText ps) = 3"

fun nodeProps :: "ASTNode \<Rightarrow> props" where
  "nodeProps (ASTElement tg am ps ch ic ss) = ps"
| "nodeProps (ASTExpression ps) = ps"
| "nodeProps (ASTText ps) = ps"

fun children :: "ASTNode \<Rightarrow> ASTNode list" where
  "children (ASTElement tg am ps ch ic ss) = ch"
| "children (ASTExpression ps) = []"
| "children (ASTText ps) = []"

fun tag :: "ASTNode \<Rightarrow> string" where
  "tag (ASTElement tg am ps ch ic ss) = tg"
| "tag (ASTExpression ps) = []"
| "tag (ASTText ps) = []"

text \<open>Reading a property: \<open>node.k\<close>; an absent property reads as \<open>undefined\<close>.\<close>

definition getProp :: "ASTNode \<Rightarrow> string \<Rightarrow> propval" where
  "getProp node k = (case map_of (nodeProps node) k of None \<Rightarrow> PUndefined | Some v \<Rightarrow> v)"

text \<open>Assigning a property: \<open>node.k = v\<close> overwrites in place or appends a new key.\<close>

fun assign :: "string \<Rightarrow> propval \<Rightarrow> props \<Rightarrow> props" where
  "assign k v [] = [(k, v)]"
| "assign k v (p # ps) = (if fst p = k then (k, v) # ps else p # assign k v ps)"


text \<open>JavaScript truthiness of a property value.\<close>

fun truthy :: "propval \<Rightarrow> bool" where
  "truthy PUndefined = False"
| "truthy (PBool b) = b"
| "truthy (PStr s) = (s \<noteq> [])"

text \<open>\<open>Object.keys(node)\<close>: the names of the node's own properties.\<close>

fun objectKeys :: "ASTNode \<Rightarrow> string list" where
  "objectKeys (ASTElement tg am ps ch ic ss) =
     [''type'', ''tag'', ''attrsList'', ''attrsMap'', ''rawAttrsMap'', ''parent'', ''children'']
     @ map fst ps
     @ (if ic = None then [] else [''ifConditions''])
     @ (if ss = [] then [] else [''scopedSlots''])"
| "objectKeys (ASTExpression ps) = ''type'' # map fst ps"
| "objectKeys (ASTText ps) = ''type'' # map fst ps"

section \<open>Static optimizer (compiler/optimizer.js)\<close>

text \<open>
  Modelled from the spec: \<open>makeMap\<close> and \<open>isBuiltInTag\<close> of shared/util are not among
  the sources.  \<open>makeMap(str)\<close> splits \<open>str\<close> at commas and returns the membership
  test of the resulting allow-list; \<open>isBuiltInTag\<close> is \<open>makeMap('slot,component', true)\<close>,
  the test for the two built-in tags on the lower-cased tag name.
\<close>

fun splitComma :: "string \<Rightarrow> string \<Rightarrow> string list" where
  "splitComma acc [] = [rev acc]"
| "splitComma acc (c # cs) =
     (if c = CHR '','' then rev acc # splitComma [] cs else splitComma (c # acc) cs)"

definition makeMap :: "string \<Rightarrow> string \<Rightarrow> bool" where
  "makeMap str val = (val \<in> set (splitComma [] str))"

definition toLowerCase :: "string \<Rightarrow> string" where
  "toLowerCase s =
     map (\<lambda>c. if (65::nat) \<le> of_char c \<and> of_char c \<le> (90::nat)
             then char_of (of_char c + (32::nat)) else c) s"

definition isBuiltInTag :: "string \<Rightarrow> bool" where
  "isBuiltInTag t = makeMap ''slot,component'' (toLowerCase t)"

text \<open>The compiler options the optimizer reads: \<open>options.staticKeys || ''\<close> and
  \<open>options.isReservedTag || no\<close>.\<close>

record CompilerOptions =
  staticKeys :: string
  isReservedTag :: "string \<Rightarrow> bool"

definition genStaticKeys :: "string \<Rightarrow> string \<Rightarrow> bool" where
  "genStaticKeys keys =
     makeMap (''type,tag,attrsList,attrsMap,plain,parent,children,attrs,start,end,rawAttrsMap''
              @ (if keys \<noteq> [] then '','' @ keys else []))"

definition isStaticKey :: "CompilerOptions \<Rightarrow> string \<Rightarrow> bool" where
  "isStaticKey options = genStaticKeys (staticKeys options)"

text \<open>
  \<open>isDirectChildOfTemplateFor\<close> walks the \<open>parent\<close> chain.  The chain is given as the
  list of ancestors, nearest first, each with its tag and whether its \<open>for\<close> is truthy.
\<close>

fun isDirectChildOfTemplateFor :: "(string \<times> bool) list \<Rightarrow> bool" where
  "isDirectChildOfTemplateFor [] = False"
| "isDirectChildOfTemplateFor ((ptag, pfor) # ancestors) =
     (if ptag \<noteq> ''template'' then False
      else if pfor then True
      else isDirectChildOfTemplateFor ancestors)"

definition isStatic :: "CompilerOptions \<Rightarrow> (string \<times> bool) list \<Rightarrow> ASTNode \<Rightarrow> bool" where
  "isStatic options ancestors node =
     (if nodeType node = 2 then False
      else if nodeType node = 3 then True
      else (truthy (getProp node ''pre'') \<or>
        (\<not> truthy (getProp node ''hasBindings'') \<and>
         \<not> truthy (getProp node ''if'') \<and> \<not> truthy (getProp node ''for'') \<and>
         \<not> isBuiltInTag (tag node) \<and>
         isReservedTag options (tag node) \<and>
         \<not> isDirectChildOfTemplateFor ancestors \<and>
         list_all (isStaticKey options) (objectKeys node))))"

definition isStaticFlag :: "ASTNode \<Rightarrow> bool" where
  "isStaticFlag node = truthy (getProp node ''static'')"

text \<open>
  \<open>markStatic\<close> mutates the tree in place; the model returns the marked tree.  The
  children have the node as parent; the \<open>v-else(-if)\<close> blocks have the parent of the
  node that bears the \<open>v-if\<close>.
\<close>

fun markStatic :: "CompilerOptions \<Rightarrow> (string \<times> bool) list \<Rightarrow> ASTNode \<Rightarrow> ASTNode" where
  "markStatic options ancestors (ASTElement tg am ps ch ic ss) =
     (let node = ASTElement tg am ps ch ic ss;
          s0 = isStatic options ancestors node;
          ps0 = assign ''static'' (PBool s0) ps
      in if \<not> isReservedTag options tg \<and> tg \<noteq> ''slot'' \<and> map_of am ''inline-template'' = None
         then ASTElement tg am ps0 ch ic ss
         else
           let ch' = map (markStatic options ((tg, truthy (getProp node ''for'')) # ancestors)) ch;
               ps1 = (if list_all isStaticFlag ch' then ps0 else assign ''static'' (PBool False) ps0);
               ic' = map_option (map (map_prod id (markStatic options ancestors))) ic;
               ps2 = (case ic' of None \<Rightarrow> ps1
                      | Some bs \<Rightarrow> if list_all (\<lambda>b. isStaticFlag (snd b)) bs then ps1
                                  else assign ''static'' (PBool False) ps1)
           in ASTElement tg am ps2 ch' ic' ss)"
| "markStatic options ancestors (ASTExpression ps) =
     ASTExpression (assign ''static'' (PBool (isStatic options ancestors (ASTExpression ps))) ps)"
| "markStatic options ancestors (ASTText ps) =
     ASTText (assign ''static'' (PBool (isStatic options ancestors (ASTText ps))) ps)"

text \<open>
  \<open>markStaticRoots\<close>: only elements are touched.  After \<open>node.staticRoot = true\<close> the
  function returns; otherwise it sets \<open>staticRoot = false\<close> and goes on into the
  children and the \<open>v-else(-if)\<close> blocks.
\<close>

fun markStaticRoots :: "ASTNode \<Rightarrow> bool \<Rightarrow> ASTNode" where
  "markStaticRoots (ASTElement tg am ps ch ic ss) isInFor =
     (let node = ASTElement tg am ps ch ic ss;
          ps0 = (if truthy (getProp node ''static'') \<or> truthy (getProp node ''once'')
                 then assign ''staticInFor'' (PBool isInFor) ps else ps)
      in if truthy (getProp node ''static'') \<and> length ch \<noteq> 0 \<and>
            \<not> (length ch = 1 \<and> nodeType (hd ch) = 3)
         then ASTElement tg am (assign ''staticRoot'' (PBool True) ps0) ch ic ss
         else
           let ps1 = assign ''staticRoot'' (PBool False) ps0;
               ch' = map (\<lambda>c. markStaticRoots c (isInFor \<or> truthy (getProp node ''for''))) ch;
               ic' = map_option (map (map_prod id (\<lambda>b. markStaticRoots b isInFor))) ic
           in ASTElement tg am ps1 ch' ic' ss)"
| "markStaticRoots (ASTExpression ps) isInFor = ASTExpression ps"
| "markStaticRoots (ASTText ps) isInFor = ASTText ps"

definition optimize :: "ASTNode option \<Rightarrow> CompilerOptions \<Rightarrow> ASTNode option" where
  "optimize root options =
     (case root of None \<Rightarrow> None
      | Some r \<Rightarrow> Some (markStaticRoots (markStatic options [] r) False))"

subsection \<open>Notions used to state the optimizer's properties\<close>

fun ifConditions :: "ASTNode \<Rightarrow> (string option \<times> ASTNode) list option" where
  "ifConditions (ASTElement tg am ps ch ic ss) = ic"
| "ifConditions (ASTExpression ps) = None"
| "ifConditions (ASTText ps) = None"

text \<open>The condition under which \<open>markStaticRoots\<close> assigns \<open>staticRoot = true\<close>.\<close>

definition staticRootCriterion :: "ASTNode \<Rightarrow> bool" where
  "staticRootCriterion node =
     (truthy (getProp node ''static'') \<and> children node \<noteq> [] \<and>
      \<not> (length (children node) = 1 \<and> nodeType (hd (children node)) = 3))"

text \<open>All element nodes of a tree: the node, the elements below its children and
  below its \<open>v-else(-if)\<close> blocks.\<close>

fun allElements :: "ASTNode \<Rightarrow> ASTNode list" where
  "allElements (ASTElement tg am ps ch ic ss) =
     ASTElement tg am ps ch ic ss # concat (map allElements ch)
       @ (case ic of None \<Rightarrow> [] | Some bs \<Rightarrow> concat (map (\<lambda>b. allElements (snd b)) bs))"
| "allElements (ASTExpression ps) = []"
| "allElements (ASTText ps) = []"

text \<open>The element nodes of a processed tree that have no static root strictly above
  them: the node itself and, unless its \<open>staticRoot\<close> is true, those of its children
  and blocks.\<close>

fun visitedElements :: "ASTNode \<Rightarrow> ASTNode list" where
  "visitedElements (ASTElement tg am ps ch ic ss) =
     ASTElement tg am ps ch ic ss #
       (if truthy (getProp (ASTElement tg am ps ch ic ss) ''staticRoot'') then []
        else concat (map visitedElements ch)
          @ (case ic of None \<Rightarrow> [] | Some bs \<Rightarrow> concat (map (\<lambda>b. visitedElements (snd b)) bs)))"
| "visitedElements (ASTExpression ps) = []"
| "visitedElements (ASTText ps) = []"

text \<open>The allow-list accepts the three keys that the optimizer itself adds.\<close>

definition keysOK :: "CompilerOptions \<Rightarrow> bool" where
  "keysOK options = (isStaticKey options ''static'' \<and> isStaticKey options ''staticRoot'' \<and>
      isStaticKey options ''staticInFor'')"

text \<open>Abbreviations for the tests of \<open>markStatic\<close> and \<open>markStaticRoots\<close> on the
  components of an element.\<close>

definition isComponentLike :: "CompilerOptions \<Rightarrow> string \<Rightarrow> (string \<times> string) list \<Rightarrow> bool" where
  "isComponentLike options tg am =
     (\<not> isReservedTag options tg \<and> tg \<noteq> ''slot'' \<and> map_of am ''inline-template'' = None)"

definition blocksStatic :: "(string option \<times> ASTNode) list option \<Rightarrow> bool" where
  "blocksStatic ic = (case ic of None \<Rightarrow> True | Some bs \<Rightarrow> list_all (\<lambda>b. isStaticFlag (snd b)) bs)"

definition forOf :: "props \<Rightarrow> bool" where
  "forOf ps = truthy (case map_of ps ''for'' of None \<Rightarrow> PUndefined | Some v \<Rightarrow> v)"

definition staticOf :: "props \<Rightarrow> bool" where
  "staticOf ps = truthy (case map_of ps ''static'' of None \<Rightarrow> PUndefined | Some v \<Rightarrow> v)"

definition onceOf :: "props \<Rightarrow> bool" where
  "onceOf ps = truthy (case map_of ps ''once'' of None \<Rightarrow> PUndefined | Some v \<Rightarrow> v)"

definition rootCrit :: "props \<Rightarrow> ASTNode list \<Rightarrow> bool" where
  "rootCrit ps ch = (staticOf ps \<and> ch \<noteq> [] \<and> \<not> (length ch = 1 \<and> nodeType (hd ch) = 3))"

definition inForProps :: "bool \<Rightarrow> props \<Rightarrow> props" where
  "inForProps f ps = (if staticOf ps \<or> onceOf ps then assign ''staticInFor'' (PBool f) ps else ps)"

subsection \<open>Example templates\<close>

text \<open>The web platform's options: its modules contribute the static keys
  \<open>staticClass,staticStyle\<close>; three reserved tags stand for the HTML tags.\<close>

definition webOptions :: CompilerOptions where
  "webOptions = \<lparr> staticKeys = ''staticClass,staticStyle'',
                   isReservedTag = (\<lambda>t. t = ''div'' \<or> t = ''p'' \<or> t = ''span'') \<rparr>"

definition permissiveOptions :: CompilerOptions where
  "permissiveOptions = \<lparr> staticKeys = ''staticClass,staticStyle,static,staticRoot,staticInFor'',
                   isReservedTag = (\<lambda>t. t = ''div'' \<or> t = ''p'' \<or> t = ''span'') \<rparr>"

definition plainElement :: "string \<Rightarrow> ASTNode list \<Rightarrow> ASTNode" where
  "plainElement tg ch = ASTElement tg [] [(''plain'', PBool True)] ch None []"

definition textNode :: "string \<Rightarrow> ASTNode" where
  "textNode s = ASTText [(''text'', PStr s)]"

text \<open>\<open><div>hello</div>\<close>, \<open><div><p></p><p></p></div>\<close> and
  \<open><div><p><span></span><span></span></p></div>\<close>.\<close>

definition singleTextDiv :: ASTNode where
  "singleTextDiv = plainElement ''div'' [textNode ''hello'']"

definition twoChildrenDiv :: ASTNode where
  "twoChildrenDiv = plainElement ''div'' [plainElement ''p'' [], plainElement ''p'' []]"

definition nestedStaticDiv :: ASTNode where
  "nestedStaticDiv =
     plainElement ''div'' [plainElement ''p'' [plainElement ''span'' [], plainElement ''span'' []]]"

definition markedLeaf :: "string \<Rightarrow> ASTNode" where
  "markedLeaf tg = ASTElement tg [] [(''plain'', PBool True), (''static'', PBool True)] [] None []"

definition nestedInner :: ASTNode where
  "nestedInner = ASTElement ''p'' [] [(''plain'', PBool True), (''static'', PBool True)]
                   [markedLeaf ''span'', markedLeaf ''span''] None []"

section \<open>Virtual nodes and the list diff (core/vdom/patch.js)\<close>

text \<open>
  A virtual node, with the fields the patch algorithm reads and writes.  \<open>uid\<close> stands
  for the identity of the JavaScript object (\<open>oldVnode === vnode\<close> compares it);
  \<open>elm\<close> is the live node the vnode is attached to; \<open>asyncFactory\<close> is the identity of
  the factory object, whose \<open>error\<close> and \<open>resolved\<close> fields are looked up in a table.
  A key is a string or a number; \<open>undefined\<close> is the absent key.  A number key is given
  by the string that the language's \<open>ToString\<close> yields for it (\<open>1\<close>, \<open>1.5\<close>, \<open>1e+21\<close>,
  \<open>NaN\<close>): it is the name under which the number is used as a property, and two
  numbers other than \<open>NaN\<close> are equal exactly when these strings are.  The selectors
  carry the prefix \<open>v\<close>.  Component placeholders (\<open>data.hook\<close>,
  \<open>componentInstance\<close>) and the injected platform modules are outside the model: the
  places where the module hooks \<open>create\<close>, \<open>update\<close> and \<open>destroy\<close> are invoked are
  recorded as events, and no module defers a removal.
\<close>

datatype vkey = KNum string | KStr string

record VNodeData =
  attrs :: "(string \<times> string) list option"

datatype VNode = VNode
  (uid: nat)
  (vtag: "string option")
  (vdata: "VNodeData option")
  (vchildren: "VNode list option")
  (vtext: "string option")
  (velm: "nat option")
  (vkey: "vkey option")
  (vIsComment: bool)
  (vIsStatic: bool)
  (vIsCloned: bool)
  (vIsOnce: bool)
  (vAsyncFactory: "nat option")
  (vIsAsyncPlaceholder: bool)

record AsyncFactory =
  errorDefined :: bool
  resolvedDefined :: bool

type_synonym Factories = "nat \<Rightarrow> AsyncFactory"

datatype error = TypeError | DOMException

fun set_elm :: "nat option \<Rightarrow> VNode \<Rightarrow> VNode" where
  "set_elm e (VNode u t d c x _ k ic st cl on af ap) = VNode u t d c x e k ic st cl on af ap"

fun set_children :: "VNode list option \<Rightarrow> VNode \<Rightarrow> VNode" where
  "set_children c (VNode u t d _ x e k ic st cl on af ap) = VNode u t d c x e k ic st cl on af ap"


text \<open>
  \<open>sameInputType\<close>: \<open>typeA\<close> is \<open>false\<close> when \<open>data\<close> or \<open>data.attrs\<close> is undefined and
  \<open>attrs.type\<close> (a string or \<open>undefined\<close>) otherwise.
  Modelled from the spec: \<open>isTextInputType\<close> of web/util/element is not among the
  sources; it is the membership test of \<open>text,number,password,search,email,tel,url\<close>.
\<close>

datatype inputType = JFalse | JUndefined | JString string

definition inputTypeOf :: "VNode \<Rightarrow> inputType" where
  "inputTypeOf a =
     (case vdata a of None \<Rightarrow> JFalse
      | Some d \<Rightarrow> (case attrs d of None \<Rightarrow> JFalse
          | Some al \<Rightarrow> (case map_of al ''type'' of None \<Rightarrow> JUndefined | Some t \<Rightarrow> JString t)))"

fun isTextInputType :: "inputType \<Rightarrow> bool" where
  "isTextInputType (JString t) =
     (t \<in> set [''text'', ''number'', ''password'', ''search'', ''email'', ''tel'', ''url''])"
| "isTextInputType JFalse = False"
| "isTextInputType JUndefined = False"

definition sameInputType :: "VNode \<Rightarrow> VNode \<Rightarrow> bool" where
  "sameInputType a b =
     (if vtag a \<noteq> Some ''input'' then True
      else inputTypeOf a = inputTypeOf b \<or>
           isTextInputType (inputTypeOf a) \<and> isTextInputType (inputTypeOf b))"

text \<open>
  \<open>sameVnode\<close>.  The last conjunct reads \<open>b.asyncFactory.error\<close>; it is reached only
  when \<open>a.asyncFactory === b.asyncFactory\<close>, and raises a TypeError when both are
  undefined.
\<close>

text \<open>\<open>a.key === b.key\<close>: a number is not equal to a string, and \<open>NaN\<close> is not equal
  to itself.\<close>

definition strictEqualKey :: "vkey option \<Rightarrow> vkey option \<Rightarrow> bool" where
  "strictEqualKey a b = (a = b \<and> a \<noteq> Some (KNum ''NaN''))"

definition sameVnode :: "Factories \<Rightarrow> VNode \<Rightarrow> VNode \<Rightarrow> error + bool" where
  "sameVnode fs a b =
     (if \<not> strictEqualKey (vkey a) (vkey b) then Inr False
      else if vtag a = vtag b \<and> vIsComment a = vIsComment b \<and>
              (vdata a \<noteq> None) = (vdata b \<noteq> None) \<and> sameInputType a b then Inr True
      else if \<not> vIsAsyncPlaceholder a then Inr False
      else if vAsyncFactory a \<noteq> vAsyncFactory b then Inr False
      else (case vAsyncFactory b of None \<Rightarrow> Inl TypeError
            | Some f \<Rightarrow> Inr (\<not> errorDefined (fs f))))"

text \<open>Reading \<open>arr[i]\<close>: an index outside the array yields \<open>undefined\<close>.  The old
  children array may hold \<open>undefined\<close> entries (nodes that were moved).\<close>

definition nth_opt :: "'a option list \<Rightarrow> int \<Rightarrow> 'a option" where
  "nth_opt xs i = (if 0 \<le> i \<and> i < int (length xs) then xs ! nat i else None)"


text \<open>\<open>findIdxInOld\<close>: \<open>for (let i = start; i < end; i++)\<close>.\<close>

function findIdxInOld :: "Factories \<Rightarrow> VNode \<Rightarrow> VNode option list \<Rightarrow> int \<Rightarrow> int \<Rightarrow> error + int option" where
  "findIdxInOld fs node oldCh start end' =
     (if start < end' then
        (case nth_opt oldCh start of
           None \<Rightarrow> findIdxInOld fs node oldCh (start + 1) end'
         | Some c \<Rightarrow>
            (case sameVnode fs node c of
               Inl e \<Rightarrow> Inl e
             | Inr same \<Rightarrow> if same then Inr (Some start)
                           else findIdxInOld fs node oldCh (start + 1) end'))
      else Inr None)"
  by pat_completeness auto
termination
  by (relation "measure (\<lambda>(fs, node, oldCh, start, end'). nat (end' - start))") auto

text \<open>
  The search C7 describes: the first index from \<open>start\<close> through \<open>end\<close> inclusive whose
  entry is defined and is the same node as \<open>node\<close>.
\<close>

function firstMatchInclusive :: "Factories \<Rightarrow> VNode \<Rightarrow> VNode option list \<Rightarrow> int \<Rightarrow> int \<Rightarrow> error + int option" where
  "firstMatchInclusive fs node oldCh start end' =
     (if start \<le> end' then
        (case nth_opt oldCh start of
           None \<Rightarrow> firstMatchInclusive fs node oldCh (start + 1) end'
         | Some c \<Rightarrow>
            (case sameVnode fs node c of
               Inl e \<Rightarrow> Inl e
             | Inr same \<Rightarrow> if same then Inr (Some start)
                           else firstMatchInclusive fs node oldCh (start + 1) end'))
      else Inr None)"
  by pat_completeness auto
termination
  by (relation "measure (\<lambda>(fs, node, oldCh, start, end'). nat (end' + 1 - start))") auto

text \<open>Printing an index, as a template literal does.\<close>

fun showNat :: "nat \<Rightarrow> string" where
  "showNat n =
     (if n < 10 then [char_of (48 + n)]
      else showNat (n div 10) @ [char_of (48 + n mod 10)])"







subsection \<open>Example nodes\<close>

definition noFactories :: Factories where
  "noFactories = (\<lambda>f. \<lparr> errorDefined = False, resolvedDefined = False \<rparr>)"

definition elementVNode :: "nat \<Rightarrow> string \<Rightarrow> vkey option \<Rightarrow> nat option \<Rightarrow> VNode" where
  "elementVNode u t k e =
     VNode u (Some t) (Some \<lparr> attrs = None \<rparr>) None None e k False False False False None False"

text \<open>An async placeholder (a comment node that was hydrated as the stand-in of an
  async component) and the vnode of the component once its factory has resolved.\<close>

definition asyncPlaceholderVNode :: "nat \<Rightarrow> vkey option \<Rightarrow> nat option \<Rightarrow> VNode" where
  "asyncPlaceholderVNode u k e =
     VNode u None None None (Some []) e k True False False False (Some 0) True"

definition resolvedAsyncVNode :: "nat \<Rightarrow> vkey option \<Rightarrow> nat option \<Rightarrow> VNode" where
  "resolvedAsyncVNode u k e =
     VNode u (Some ''vue-component-1-async'') (Some \<lparr> attrs = None \<rparr>) None None e k
       False False False False (Some 0) False"

subsection \<open>The live surface\<close>

text \<open>
  Modelled from the spec: the node operations (\<open>nodeOps\<close>) are injected by the
  platform and are not among the sources.  They are modelled on the DOM: live nodes
  are numbered, every node has at most one parent and an ordered list of child nodes,
  \<open>insertBefore\<close> and \<open>appendChild\<close> first detach the node from its present parent,
  \<open>insertBefore\<close> with a reference node that is not a child of the parent and
  \<open>removeChild\<close> of a node that is not a child raise a DOM exception, and setting
  the text content drops the children.  Every operation that changes the surface is
  appended to a log.  The state also numbers the vnode objects that \<open>cloneVNode\<close>
  allocates.
\<close>

datatype DomOp =
    CreateElement string nat
  | CreateTextNode "string option" nat
  | CreateComment "string option" nat
  | InsertBefore nat nat "nat option"
  | AppendChild nat nat
  | RemoveChild nat nat
  | SetTextContent nat "string option"
  | InvokeCreateHooks "nat option"
  | InvokeUpdateHooks "nat option"
  | InvokeDestroyHooks "nat option"
  | Hydrate "nat option"

record Host =
  nextNode :: nat
  parentNode :: "nat \<Rightarrow> nat option"
  childNodes :: "nat \<Rightarrow> nat list"
  oplog :: "DomOp list"
  nextUid :: nat

definition logOp :: "DomOp \<Rightarrow> Host \<Rightarrow> Host" where
  "logOp op h = h\<lparr> oplog := oplog h @ [op] \<rparr>"




definition detach :: "nat \<Rightarrow> Host \<Rightarrow> Host" where
  "detach n h =
     (case parentNode h n of None \<Rightarrow> h
      | Some p \<Rightarrow> h\<lparr> parentNode := (parentNode h)(n := None),
                     childNodes := (childNodes h)(p := removeAll n (childNodes h p)) \<rparr>)"








subsection \<open>Creating and removing nodes\<close>










subsection \<open>patchVnode and updateChildren\<close>

text \<open>
  \<open>patchVnode\<close>, \<open>updateChildren\<close> and the \<open>while\<close> loop of \<open>updateChildren\<close>.

  \<open>patchVnode (oldVnode, vnode, ..., ownerArray, index)\<close> writes to \<open>vnode\<close> and, when
  it clones, to \<open>ownerArray[index]\<close>; the model returns the vnode the array holds
  afterwards, and \<open>updateChildren\<close> returns the new children array.  The children
  arrays of two different vnode objects are taken to be different arrays
  (\<open>oldCh !== ch\<close>).  \<open>hydrate\<close>, which \<open>patchVnode\<close> calls for a resolved async
  placeholder, is recorded as an event.

  The loop keeps the four indices, the old children array (whose moved entries are
  set to \<open>undefined\<close>), the cached \<open>oldStartVnode\<close> and \<open>oldEndVnode\<close>, the lazily built
  key map (a value inherited from \<open>Object.prototype\<close> is no index, \<open>oldCh\<close> has no such
  entry, and \<open>sameVnode\<close> raises a TypeError on \<open>undefined\<close>), and the new children
  array \<open>newCh\<close>, whose entries are replaced by the
  patched or created vnodes.  An entry of the new array is patched or created exactly
  when its index leaves the range from \<open>newStartIdx\<close> to \<open>newEndIdx\<close>; the cached
  \<open>newStartVnode\<close> and \<open>newEndVnode\<close> are the entries at these two indices of the array as
  it was passed in, \<open>newCh0\<close>.  \<open>insertedVnodeQueue\<close> only collects vnodes with an
  \<open>insert\<close> hook and is left out.
\<close>






subsection \<open>Notions used to state the properties of the list diff\<close>

















text \<open>\<open>sameNodeAt fs node oldCh j\<close>: the entry \<open>j\<close> of the old children is defined and
  \<open>sameVnode (node, oldCh[j])\<close> is true.\<close>

definition sameNodeAt :: "Factories \<Rightarrow> VNode \<Rightarrow> VNode option list \<Rightarrow> int \<Rightarrow> bool" where
  "sameNodeAt fs node oldCh j =
     (case nth_opt oldCh j of None \<Rightarrow> False | Some c \<Rightarrow> sameVnode fs node c = Inr True)"

section \<open>Code generation for conditionals (compiler/codegen)\<close>

text \<open>
  A condition is \<open>{exp, block}\<close>; \<open>exp\<close> is undefined for \<open>v-else\<close>.  The generators for
  a block (\<open>altGen\<close>, \<open>genOnce\<close>, \<open>genElement\<close>) are parameters: they take the block and
  the codegen state and return the code with the state they leave.  The blocks are of
  an arbitrary type; \<open>once\<close> reads \<open>el.once\<close>.
\<close>

type_synonym ('b, 's) gen = "'b \<Rightarrow> 's \<Rightarrow> string \<times> 's"

definition genTernaryExp ::
  "('b, 's) gen option \<Rightarrow> ('b \<Rightarrow> bool) \<Rightarrow> ('b, 's) gen \<Rightarrow> ('b, 's) gen \<Rightarrow> 'b \<Rightarrow> 's \<Rightarrow> string \<times> 's" where
  "genTernaryExp altGen once genOnce genElement el state =
     (case altGen of
        Some g \<Rightarrow> g el state
      | None \<Rightarrow> if once el then genOnce el state else genElement el state)"

text \<open>A string (or \<open>undefined\<close>) in a condition: the empty string is falsy.\<close>

definition truthyString :: "string option \<Rightarrow> bool" where
  "truthyString s = (case s of None \<Rightarrow> False | Some t \<Rightarrow> t \<noteq> [])"

definition emptySentinel :: "string option \<Rightarrow> string" where
  "emptySentinel altEmpty = (if truthyString altEmpty then the altEmpty else ''_e()'')"

text \<open>\<open>genIfConditions\<close>: the template literal evaluates \<open>genTernaryExp\<close> of the block
  before the recursive call, so the state is threaded in that order.\<close>

fun genIfConditions ::
  "('b, 's) gen \<Rightarrow> string option \<Rightarrow> (string option \<times> 'b) list \<Rightarrow> 's \<Rightarrow> string \<times> 's" where
  "genIfConditions gen altEmpty [] state = (emptySentinel altEmpty, state)"
| "genIfConditions gen altEmpty ((exp, block) # conditions) state =
     (if truthyString exp then
        (let (branch, state1) = gen block state;
             (rest, state2) = genIfConditions gen altEmpty conditions state1
         in (''('' @ the exp @ '')?'' @ branch @ '':'' @ rest, state2))
      else gen block state)"

text \<open>
  The generated text as an expression: a conditional \<open>(c)?a:b\<close>, the code of a
  block, or the code for no block.  \<open>genIfConditionsExpr\<close> builds the expression the
  way \<open>genIfConditions\<close> builds the text, and \<open>render\<close> writes it out.  \<open>selectBranch\<close>
  evaluates the conditionals for an assignment of truth values to the condition
  expressions.
\<close>

datatype 'b jsExpr =
    Ternary string "'b jsExpr" "'b jsExpr"
  | BranchCode 'b string
  | EmptyCode string

fun render :: "'b jsExpr \<Rightarrow> string" where
  "render (Ternary c a b) = ''('' @ c @ '')?'' @ render a @ '':'' @ render b"
| "render (BranchCode block code) = code"
| "render (EmptyCode code) = code"

fun genIfConditionsExpr ::
  "('b, 's) gen \<Rightarrow> string option \<Rightarrow> (string option \<times> 'b) list \<Rightarrow> 's \<Rightarrow> 'b jsExpr \<times> 's" where
  "genIfConditionsExpr gen altEmpty [] state = (EmptyCode (emptySentinel altEmpty), state)"
| "genIfConditionsExpr gen altEmpty ((exp, block) # conditions) state =
     (if truthyString exp then
        (let (branch, state1) = gen block state;
             (rest, state2) = genIfConditionsExpr gen altEmpty conditions state1
         in (Ternary (the exp) (BranchCode block branch) rest, state2))
      else (let (branch, state1) = gen block state in (BranchCode block branch, state1)))"

fun selectBranch :: "(string \<Rightarrow> bool) \<Rightarrow> 'b jsExpr \<Rightarrow> 'b jsExpr" where
  "selectBranch env (Ternary c a b) = (if env c then selectBranch env a else selectBranch env b)"
| "selectBranch env (BranchCode block code) = BranchCode block code"
| "selectBranch env (EmptyCode code) = EmptyCode code"

fun branchOf :: "'b jsExpr \<Rightarrow> 'b option" where
  "branchOf (BranchCode block code) = Some block"
| "branchOf (EmptyCode code) = None"
| "branchOf (Ternary c a b) = None"

text \<open>The block a chain calls for: that of the first condition whose expression is
  true, or the \<open>v-else\<close> block when the chain reaches it.\<close>

fun chosenBlock :: "(string \<Rightarrow> bool) \<Rightarrow> (string option \<times> 'b) list \<Rightarrow> 'b option" where
  "chosenBlock env [] = None"
| "chosenBlock env ((exp, block) # conditions) =
     (if truthyString exp then (if env (the exp) then Some block else chosenBlock env conditions)
      else Some block)"

text \<open>A generator for the examples: the code of block \<open>n\<close> is \<open>_c('n')\<close>; the
  state counts the calls.\<close>

definition exampleGen :: "(string, nat) gen" where
  "exampleGen block state = (''_c('' @ block @ '')'', state + 1)"

section \<open>Closing an element in the parser (compiler/parser/index.js)\<close>

text \<open>
  \<open>trimEndingWhitespace\<close>: while the last child is a text node (type 3) whose text is
  a single space, pop it; nothing happens inside a \<open><pre>\<close> (\<open>inPre\<close>).
\<close>

definition isWhitespaceNode :: "ASTNode \<Rightarrow> bool" where
  "isWhitespaceNode n = (nodeType n = 3 \<and> getProp n ''text'' = PStr '' '')"

function popWhitespace :: "ASTNode list \<Rightarrow> ASTNode list" where
  "popWhitespace ch =
     (if ch \<noteq> [] \<and> isWhitespaceNode (last ch) then popWhitespace (butlast ch) else ch)"
  by pat_completeness auto
termination
  by (relation "measure length") auto

fun setChildren :: "ASTNode list \<Rightarrow> ASTNode \<Rightarrow> ASTNode" where
  "setChildren ch' (ASTElement tg am ps ch ic ss) = ASTElement tg am ps ch' ic ss"
| "setChildren ch' (ASTExpression ps) = ASTExpression ps"
| "setChildren ch' (ASTText ps) = ASTText ps"

definition trimEndingWhitespace :: "bool \<Rightarrow> ASTNode \<Rightarrow> ASTNode" where
  "trimEndingWhitespace inPre el =
     (if \<not> inPre then setChildren (popWhitespace (children el)) el else el)"







record ParserState =
  root :: "ASTNode option"
  currentParent :: "ASTNode option"
  stackLength :: nat
  inVPre :: bool
  inPre :: bool
  warned :: bool
  warnings :: "string list"











section \<open>Static trees at run time (core/instance/render-helpers/render-static.js)\<close>

text \<open>
  What a static render function returns: a vnode, an array, or nothing.  An array has
  an identity of its own; an entry of an array is a vnode, a string, or a falsy value.
  The identity of a vnode is its \<open>uid\<close>.
\<close>

datatype Item = Hole | Text string | Node VNode

datatype StaticTree = Undefined | Single VNode | Several nat "Item list"






text \<open>\<open>markStaticNode\<close> sets \<open>isStatic\<close>, \<open>key\<close> and \<open>isOnce\<close>.\<close>

fun markStaticNode :: "VNode \<Rightarrow> string \<Rightarrow> bool \<Rightarrow> VNode" where
  "markStaticNode (VNode u t d c x e k ic st cl on af ap) key isOnce =
     VNode u t d c x e (Some (KStr key)) ic True cl isOnce af ap"

text \<open>
  \<open>markStatic\<close> of render-static.js (the optimizer has a function of the same name):
  for an array, every entry that is truthy and not a string is marked with the key
  \<open>key_i\<close>; anything else is marked as a node, which raises a TypeError on
  \<open>undefined\<close>.
\<close>

fun markStaticItems :: "Item list \<Rightarrow> nat \<Rightarrow> string \<Rightarrow> bool \<Rightarrow> Item list" where
  "markStaticItems [] i key isOnce = []"
| "markStaticItems (Node v # items) i key isOnce =
     Node (markStaticNode v (key @ ''_'' @ showNat i) isOnce)
       # markStaticItems items (i + 1) key isOnce"
| "markStaticItems (Hole # items) i key isOnce = Hole # markStaticItems items (i + 1) key isOnce"
| "markStaticItems (Text s # items) i key isOnce = Text s # markStaticItems items (i + 1) key isOnce"

fun markStaticTree :: "StaticTree \<Rightarrow> string \<Rightarrow> bool \<Rightarrow> error + StaticTree" where
  "markStaticTree Undefined key isOnce = Inl TypeError"
| "markStaticTree (Single v) key isOnce = Inr (Single (markStaticNode v key isOnce))"
| "markStaticTree (Several a items) key isOnce = Inr (Several a (markStaticItems items 0 key isOnce))"




text \<open>\<open>markOnce\<close>, the helper for \<open>v-once\<close>.\<close>

definition markOnce :: "StaticTree \<Rightarrow> nat \<Rightarrow> string option \<Rightarrow> error + StaticTree" where
  "markOnce tree index key =
     markStaticTree tree
       (''__once__'' @ showNat index @
          (case key of None \<Rightarrow> [] | Some k \<Rightarrow> if k \<noteq> [] then ''_'' @ k else []))
       True"








section \<open>The render boundary (core/instance/render.js)\<close>

text \<open>
  What a render function can return: a vnode, an array of values, or a value that is
  neither (\<open>undefined\<close>, \<open>null\<close>, a string, ...).  A call returns or throws.
\<close>

datatype Rendered = AVNode VNode | AnArray "Rendered list" | NotAVNode

datatype Outcome = Returns Rendered | Throws string

text \<open>
  The component instance as \<open>_render\<close> reads it: the outcome of calling
  \<open>vm.$options.render\<close>, the hook \<open>vm.$options.renderError\<close> (if supplied; it is given
  the error), the previous tree \<open>vm._vnode\<close> (\<open>null\<close> before the first render) and
  \<open>vm.$options._parentVnode\<close>.  The normalisation of the scoped slots before the
  \<open>try\<close> block is not part of the model.
\<close>

record RenderVm =
  renderOutcome :: Outcome
  renderErrorHook :: "(string \<Rightarrow> Outcome) option"
  prevVnode :: "VNode option"
  parentVnode :: "VNode option"

text \<open>
  The result: the vnode returned, the \<open>parent\<close> assigned to it, the warnings, and the
  errors handed to \<open>handleError\<close> with their \<open>info\<close> string.
  Modelled from the spec: \<open>handleError\<close> and \<open>createEmptyVNode\<close> are not among the
  sources; the former reports the error to a global error handler and returns, the
  latter makes an empty placeholder (comment) node.
\<close>

record RenderResult =
  rootVnode :: VNode
  rootParent :: "VNode option"
  diagnostics :: "string list"
  reported :: "(string \<times> string) list"

definition createEmptyVNode :: VNode where
  "createEmptyVNode =
     VNode 0 None None None (Some []) None None True False False False None False"

fun isArray :: "Rendered \<Rightarrow> bool" where
  "isArray (AnArray xs) = True"
| "isArray (AVNode v) = False"
| "isArray NotAVNode = False"

definition previousTree :: "RenderVm \<Rightarrow> Rendered" where
  "previousTree vm = (case prevVnode vm of None \<Rightarrow> NotAVNode | Some v \<Rightarrow> AVNode v)"

text \<open>The \<open>try\<close>/\<open>catch\<close> of \<open>_render\<close>: the value of \<open>vnode\<close> after it, and the errors
  reported.\<close>

definition tryRender :: "bool \<Rightarrow> RenderVm \<Rightarrow> Rendered \<times> (string \<times> string) list" where
  "tryRender isProduction vm =
     (case renderOutcome vm of
        Returns v \<Rightarrow> (v, [])
      | Throws e \<Rightarrow>
          (if \<not> isProduction \<and> renderErrorHook vm \<noteq> None
           then (case the (renderErrorHook vm) e of
                   Returns v \<Rightarrow> (v, [(e, ''render'')])
                 | Throws e' \<Rightarrow> (previousTree vm, [(e, ''render''), (e', ''renderError'')]))
           else (previousTree vm, [(e, ''render'')])))"

definition multipleRootsWarning :: string where
  "multipleRootsWarning =
     ''Multiple root nodes returned from render function. Render function should return a single root node.''"

text \<open>\<open>Vue.prototype._render\<close>.\<close>

definition vm_render :: "bool \<Rightarrow> RenderVm \<Rightarrow> RenderResult" where
  "vm_render isProduction vm =
     (let (vnode0, errors) = tryRender isProduction vm;
          vnode1 = (case vnode0 of AnArray [x] \<Rightarrow> x | _ \<Rightarrow> vnode0)
      in case vnode1 of
           AVNode v \<Rightarrow>
             \<lparr> rootVnode = v, rootParent = parentVnode vm, diagnostics = [], reported = errors \<rparr>
         | _ \<Rightarrow>
             \<lparr> rootVnode = createEmptyVNode, rootParent = parentVnode vm,
               diagnostics = (if \<not> isProduction \<and> isArray vnode1
                              then [multipleRootsWarning]
                              else []),
               reported = errors \<rparr>)"

text \<open>A component whose render function returns \<open>undefined\<close>.\<close>

definition returnsNothing :: RenderVm where
  "returnsNothing = \<lparr> renderOutcome = Returns NotAVNode, renderErrorHook = None,
       prevVnode = None, parentVnode = None \<rparr>"

text \<open>A component whose render function throws, with an error-render hook and a
  previous tree.\<close>

definition throwingVm :: RenderVm where
  "throwingVm = \<lparr> renderOutcome = Throws ''boom'',
       renderErrorHook = Some (\<lambda>e. Returns (AVNode (elementVNode 7 ''pre'' None None))),
       prevVnode = Some (elementVNode 3 ''div'' None None), parentVnode = None \<rparr>"

section \<open>Properties of the static optimizer\<close>

subsection \<open>Property lists\<close>

lemma map_of_assign: "map_of (assign k v ps) k' = (if k' = k then Some v else map_of ps k')"
  by (induction ps) auto

lemma assign_assign: "assign k v (assign k w ps) = assign k v ps"
  by (induction ps) auto

lemma keys_assign: "fst ` set (assign k v ps) = insert k (fst ` set ps)"
  by (induction ps) auto

lemma assign_commute:
  "k \<noteq> k' \<Longrightarrow> k \<in> fst ` set ps \<Longrightarrow> assign k v (assign k' w ps) = assign k' w (assign k v ps)"
  by (induction ps) auto

lemma assign_fix_key: "assign k v ps = ps \<Longrightarrow> k \<in> fst ` set ps"
  using keys_assign[of k v ps] by auto

lemma forOf_assign: "k \<noteq> ''for'' \<Longrightarrow> forOf (assign k v ps) = forOf ps"
  by (simp add: forOf_def map_of_assign)

lemma staticOf_assign: "k \<noteq> ''static'' \<Longrightarrow> staticOf (assign k v ps) = staticOf ps"
  by (simp add: staticOf_def map_of_assign)

lemma onceOf_assign: "k \<noteq> ''once'' \<Longrightarrow> onceOf (assign k v ps) = onceOf ps"
  by (simp add: onceOf_def map_of_assign)

lemma staticOf_inForProps: "staticOf (inForProps f ps) = staticOf ps"
  by (simp add: inForProps_def staticOf_assign)

lemma forOf_inForProps: "forOf (inForProps f ps) = forOf ps"
  by (simp add: inForProps_def forOf_assign)

lemma isStaticFlag_Element: "isStaticFlag (ASTElement tg am ps ch ic ss) = staticOf ps"
  by (simp add: isStaticFlag_def staticOf_def getProp_def)

lemma staticRootCriterion_Element:
  "staticRootCriterion (ASTElement tg am ps ch ic ss) = rootCrit ps ch"
  by (simp add: staticRootCriterion_def rootCrit_def staticOf_def getProp_def)

subsection \<open>The two passes on an element\<close>

lemma markStatic_Element:
  "markStatic options anc (ASTElement tg am ps ch ic ss) =
     (if isComponentLike options tg am
      then ASTElement tg am
             (assign ''static'' (PBool (isStatic options anc (ASTElement tg am ps ch ic ss))) ps)
             ch ic ss
      else ASTElement tg am
             (assign ''static''
                (PBool (isStatic options anc (ASTElement tg am ps ch ic ss) \<and>
                   list_all isStaticFlag (map (markStatic options ((tg, forOf ps) # anc)) ch) \<and>
                   blocksStatic (map_option (map (map_prod id (markStatic options anc))) ic))) ps)
             (map (markStatic options ((tg, forOf ps) # anc)) ch)
             (map_option (map (map_prod id (markStatic options anc))) ic) ss)"
  by (cases ic)
     (auto simp: Let_def isComponentLike_def blocksStatic_def forOf_def getProp_def assign_assign)

lemma markStaticRoots_Element:
  "markStaticRoots (ASTElement tg am ps ch ic ss) f =
     (if rootCrit ps ch
      then ASTElement tg am (assign ''staticRoot'' (PBool True) (inForProps f ps)) ch ic ss
      else ASTElement tg am (assign ''staticRoot'' (PBool False) (inForProps f ps))
             (map (\<lambda>c. markStaticRoots c (f \<or> forOf ps)) ch)
             (map_option (map (map_prod id (\<lambda>b. markStaticRoots b f))) ic) ss)"
  by (auto simp: Let_def rootCrit_def inForProps_def staticOf_def onceOf_def forOf_def getProp_def)

declare markStatic.simps(1) [simp del]
declare markStaticRoots.simps(1) [simp del]

lemma nodeType_markStaticRoots: "nodeType (markStaticRoots n f) = nodeType n"
  by (cases n) (simp_all add: markStaticRoots_Element)

lemma isStaticFlag_markStaticRoots: "isStaticFlag (markStaticRoots n f) = isStaticFlag n"
proof (cases n)
  case (ASTElement tg am ps ch ic ss)
  then show ?thesis
    by (simp add: markStaticRoots_Element isStaticFlag_Element staticOf_assign staticOf_inForProps)
qed simp_all

lemma staticRoot_assigned:
  "getProp (markStaticRoots (ASTElement tg am ps ch ic ss) f) ''staticRoot'' =
     PBool (rootCrit ps ch)"
  by (simp add: markStaticRoots_Element getProp_def map_of_assign)

lemma criterion_markStaticRoots:
  "staticRootCriterion (markStaticRoots n f) = staticRootCriterion n"
proof (cases n)
  case (ASTElement tg am ps ch ic ss)
  then show ?thesis
    by (cases ch)
       (simp_all add: markStaticRoots_Element staticRootCriterion_Element rootCrit_def
          staticOf_assign staticOf_inForProps nodeType_markStaticRoots)
qed simp_all

lemma visited_staticRoot:
  "e \<in> set (visitedElements (markStaticRoots node isInFor)) \<Longrightarrow>
     getProp e ''staticRoot'' = PBool (staticRootCriterion e)"
proof (induction node arbitrary: e isInFor)
  case (ASTElement tg am ps ch ic ss)
  let ?n = "ASTElement tg am ps ch ic ss"
  show ?case
  proof (cases "e = markStaticRoots ?n isInFor")
    case True
    then show ?thesis
      using staticRoot_assigned[of tg am ps ch ic ss isInFor]
            criterion_markStaticRoots[of ?n isInFor]
      by (simp add: staticRootCriterion_Element)
  next
    case False
    show ?thesis
    proof (cases "rootCrit ps ch")
      case True
      with False ASTElement.prems show ?thesis
        by (simp add: markStaticRoots_Element getProp_def map_of_assign)
    next
      case crit: False
      with False ASTElement.prems consider
        (child) c where "c \<in> set ch"
          "e \<in> set (visitedElements (markStaticRoots c (isInFor \<or> forOf ps)))"
        | (block) bs b where "ic = Some bs" "b \<in> set bs"
          "e \<in> set (visitedElements (markStaticRoots (snd b) isInFor))"
        by (auto simp: markStaticRoots_Element getProp_def map_of_assign split: option.splits)
      then show ?thesis
      proof cases
        case child
        then show ?thesis by (rule ASTElement.IH(1))
      next
        case block
        have "snd b \<in> Basic_BNFs.snds b" by (cases b) simp
        with block show ?thesis
          using ASTElement.IH(2)[of bs b "snd b" e isInFor] by simp
      qed
    qed
  qed
qed (simp_all add: markStaticRoots.simps)

text \<open>
  C3, as stated, fails: in \<open><div><p><span></span><span></span></p></div>\<close> the
  outer \<open>div\<close> becomes a static root and \<open>markStaticRoots\<close> returns there; the inner
  \<open>p\<close> is an element of the optimized tree, it is static and has two element
  children, yet its \<open>staticRoot\<close> is never assigned.
\<close>

theorem staticRoot_iff_counterexample:
  "optimize (Some nestedStaticDiv) webOptions
     = Some (ASTElement ''div'' []
               [(''plain'', PBool True), (''static'', PBool True),
                (''staticInFor'', PBool False), (''staticRoot'', PBool True)]
               [nestedInner] None [])
   \<and> nestedInner \<in> set (allElements (ASTElement ''div'' []
               [(''plain'', PBool True), (''static'', PBool True),
                (''staticInFor'', PBool False), (''staticRoot'', PBool True)]
               [nestedInner] None []))
   \<and> staticRootCriterion nestedInner
   \<and> getProp nestedInner ''staticRoot'' = PUndefined"
  by code_simp

text \<open>
  C3 (amended): for every element that \<open>markStaticRoots\<close> reaches in a run of
  \<open>optimize\<close>, that is the root and every element with no static root strictly above
  it, \<open>staticRoot\<close> is assigned, and it is true if and only if the node is static, has
  at least one child, and its children are not exactly one plain-text node.  (The
  elements below a static root are not reached and keep whatever \<open>staticRoot\<close> they
  had.)
\<close>

theorem staticRoot_of_visited:
  "optimize (Some ast) options = Some r \<Longrightarrow> e \<in> set (visitedElements r) \<Longrightarrow>
     getProp e ''staticRoot'' = PBool (staticRootCriterion e)"
  by (auto simp: optimize_def dest: visited_staticRoot)

theorem staticRoot_of_visited_witness:
  "optimize (Some singleTextDiv) webOptions
     = Some (ASTElement ''div'' []
               [(''plain'', PBool True), (''static'', PBool True),
                (''staticInFor'', PBool False), (''staticRoot'', PBool False)]
               [ASTText [(''text'', PStr ''hello''), (''static'', PBool True)]] None [])
   \<and> getProp (ASTElement ''div'' []
               [(''plain'', PBool True), (''static'', PBool True),
                (''staticInFor'', PBool False), (''staticRoot'', PBool False)]
               [ASTText [(''text'', PStr ''hello''), (''static'', PBool True)]] None [])
         ''staticRoot'' = PBool False
   \<and> optimize (Some twoChildrenDiv) webOptions
     = Some (ASTElement ''div'' []
               [(''plain'', PBool True), (''static'', PBool True),
                (''staticInFor'', PBool False), (''staticRoot'', PBool True)]
               [markedLeaf ''p'', markedLeaf ''p''] None [])
   \<and> getProp (ASTElement ''div'' []
               [(''plain'', PBool True), (''static'', PBool True),
                (''staticInFor'', PBool False), (''staticRoot'', PBool True)]
               [markedLeaf ''p'', markedLeaf ''p''] None [])
         ''staticRoot'' = PBool True"
proof -
  let ?a = "ASTElement ''div'' []
               [(''plain'', PBool True), (''static'', PBool True),
                (''staticInFor'', PBool False), (''staticRoot'', PBool False)]
               [ASTText [(''text'', PStr ''hello''), (''static'', PBool True)]] None []"
  let ?b = "ASTElement ''div'' []
               [(''plain'', PBool True), (''static'', PBool True),
                (''staticInFor'', PBool False), (''staticRoot'', PBool True)]
               [markedLeaf ''p'', markedLeaf ''p''] None []"
  have a: "optimize (Some singleTextDiv) webOptions = Some ?a" by code_simp
  have b: "optimize (Some twoChildrenDiv) webOptions = Some ?b" by code_simp
  have va: "?a \<in> set (visitedElements ?a)" by simp
  have vb: "?b \<in> set (visitedElements ?b)" by simp
  have ca: "staticRootCriterion ?a = False" by code_simp
  have cb: "staticRootCriterion ?b = True" by code_simp
  show ?thesis
    using staticRoot_of_visited[OF a va] staticRoot_of_visited[OF b vb] a b
    by (simp only: ca cb simp_thms)
qed

subsection \<open>Running the optimizer twice\<close>

lemma ball_sandwich:
  "A \<subseteq> A' \<Longrightarrow> A' \<subseteq> A \<union> F \<Longrightarrow> (\<And>k. k \<in> F \<Longrightarrow> P k) \<Longrightarrow>
     (\<forall>k \<in> A'. P k) = (\<forall>k \<in> A. P k)"
  by blast

lemma isStatic_cong:
  assumes "keysOK options"
    and "\<And>k. k \<noteq> ''static'' \<Longrightarrow> k \<noteq> ''staticRoot'' \<Longrightarrow> k \<noteq> ''staticInFor'' \<Longrightarrow>
           map_of ps' k = map_of ps k"
    and "fst ` set ps \<subseteq> fst ` set ps'"
    and "fst ` set ps' \<subseteq> fst ` set ps \<union> {''static'', ''staticRoot'', ''staticInFor''}"
    and "(ic' = None) = (ic = None)"
  shows "isStatic options anc (ASTElement tg am ps' ch' ic' ss) =
         isStatic options anc (ASTElement tg am ps ch ic ss)"
proof -
  have "(\<forall>k \<in> fst ` set ps'. isStaticKey options k) = (\<forall>k \<in> fst ` set ps. isStaticKey options k)"
  proof (rule ball_sandwich[OF assms(3) assms(4)])
    fix k assume "k \<in> {''static'', ''staticRoot'', ''staticInFor''}"
    then have "k = ''static'' \<or> k = ''staticRoot'' \<or> k = ''staticInFor''" by simp
    with assms(1) show "isStaticKey options k" unfolding keysOK_def by (elim disjE) simp_all
  qed
  then have k: "list_all (isStaticKey options) (map fst ps') =
                list_all (isStaticKey options) (map fst ps)"
    unfolding list_all_iff by simp
  have p: "map_of ps' ''pre'' = map_of ps ''pre''"
    "map_of ps' ''hasBindings'' = map_of ps ''hasBindings''"
    "map_of ps' ''if'' = map_of ps ''if''" "map_of ps' ''for'' = map_of ps ''for''"
    by (simp_all add: assms(2))
  show ?thesis using k p assms(5)
    by (simp add: isStatic_def getProp_def)
qed

lemma isStatic_assign_static:
  assumes "keysOK options"
  shows "isStatic options anc (ASTElement tg am (assign ''static'' v ps) ch ic ss) =
         isStatic options anc (ASTElement tg am ps ch ic ss)"
  by (rule isStatic_cong[OF assms(1)]) (auto simp: map_of_assign keys_assign)

lemma isStatic_shape:
  "(ic' = None) = (ic = None) \<Longrightarrow>
   isStatic options anc (ASTElement tg am ps ch' ic' ss) =
   isStatic options anc (ASTElement tg am ps ch ic ss)"
  by (simp add: isStatic_def getProp_def)

lemma isStatic_roots:
  assumes ok: "keysOK options" and "(ic' = None) = (ic = None)"
  shows "isStatic options anc (ASTElement tg am (assign ''staticRoot'' w (inForProps f ps)) ch' ic' ss) =
         isStatic options anc (ASTElement tg am ps ch ic ss)"
  by (rule isStatic_cong[OF ok])
     (auto simp: map_of_assign keys_assign inForProps_def assms(2))

lemma map_idem:
  assumes "\<And>x. x \<in> set xs \<Longrightarrow> f (f x) = f x"
  shows "map f (map f xs) = map f xs"
  using assms by (induction xs) auto

lemma map_fix: "map f xs = xs \<Longrightarrow> x \<in> set xs \<Longrightarrow> f x = x"
  by (induction xs) auto

lemma map_fixI: "(\<And>x. x \<in> set xs \<Longrightarrow> f x = x) \<Longrightarrow> map f xs = xs"
  by (induction xs) auto

lemma blocks_idem:
  assumes "\<And>bs b. ic = Some bs \<Longrightarrow> b \<in> set bs \<Longrightarrow> f (f (snd b)) = f (snd b)"
  shows "map_option (map (map_prod id f)) (map_option (map (map_prod id f)) ic) =
         map_option (map (map_prod id f)) ic"
proof (cases ic)
  case (Some bs)
  have "map (map_prod id f) (map (map_prod id f) bs) = map (map_prod id f) bs"
    by (rule map_idem) (use assms[OF Some] in \<open>auto simp: map_prod_def split: prod.splits\<close>)
  with Some show ?thesis by simp
qed simp

lemma blocks_fix:
  assumes "map_option (map (map_prod id f)) ic = ic" "ic = Some bs" "b \<in> set bs"
  shows "f (snd b) = snd b"
proof -
  from assms(1,2) have "map (map_prod id f) bs = bs" by simp
  from map_fix[OF this assms(3)] show ?thesis by (cases b) simp
qed

lemma blocks_fixI:
  assumes "\<And>bs b. ic = Some bs \<Longrightarrow> b \<in> set bs \<Longrightarrow> f (snd b) = snd b"
  shows "map_option (map (map_prod id f)) ic = ic"
proof (cases ic)
  case (Some bs)
  have "map (map_prod id f) bs = bs"
    by (rule map_fixI) (use assms[OF Some] in \<open>auto simp: map_prod_def split: prod.splits\<close>)
  with Some show ?thesis by simp
qed simp

lemma markStatic_idem:
  assumes ok: "keysOK options"
  shows "markStatic options anc (markStatic options anc t) = markStatic options anc t"
proof (induction t arbitrary: anc)
  case (ASTElement tg am ps ch ic ss)
  let ?n = "ASTElement tg am ps ch ic ss"
  let ?s0 = "isStatic options anc ?n"
  let ?f = "markStatic options ((tg, forOf ps) # anc)"
  let ?g = "markStatic options anc"
  show ?case
  proof (cases "isComponentLike options tg am")
    case True
    then show ?thesis
      by (simp add: markStatic_Element assign_assign isStatic_assign_static[OF ok])
  next
    case False
    let ?ch = "map ?f ch"
    let ?ic = "map_option (map (map_prod id ?g)) ic"
    let ?B = "?s0 \<and> list_all isStaticFlag ?ch \<and> blocksStatic ?ic"
    let ?ps = "assign ''static'' (PBool ?B) ps"
    have ch: "map ?f ?ch = ?ch"
      by (rule map_idem) (rule ASTElement.IH(1))
    have ic: "map_option (map (map_prod id ?g)) ?ic = ?ic"
    proof (rule blocks_idem)
      fix bs b assume "ic = Some bs" "b \<in> set bs"
      then show "?g (?g (snd b)) = ?g (snd b)"
        by (cases b) (auto intro!: ASTElement.IH(2)[of bs b])
    qed
    have none: "(?ic = None) = (ic = None)" by simp
    have first: "markStatic options anc ?n = ASTElement tg am ?ps ?ch ?ic ss"
      using False by (simp add: markStatic_Element)
    have s0: "isStatic options anc (ASTElement tg am ?ps ?ch ?ic ss) = ?s0"
      using isStatic_assign_static[OF ok, of anc tg am "PBool ?B" ps ?ch ?ic ss]
            isStatic_shape[OF none, of options anc tg am ps ?ch ss ch]
      by simp
    have fo: "forOf ?ps = forOf ps" by (simp add: forOf_assign)
    have second: "markStatic options anc (ASTElement tg am ?ps ?ch ?ic ss) =
          ASTElement tg am (assign ''static'' (PBool ?B) ?ps) ?ch ?ic ss"
      using False by (simp only: markStatic_Element if_False s0 fo ch ic)
    show ?thesis
      by (simp only: first second assign_assign)
  qed
qed (simp_all add: isStatic_def assign_assign)

lemma rootProps_idem:
  "assign ''staticRoot'' v (inForProps f (assign ''staticRoot'' v (inForProps f ps))) =
   assign ''staticRoot'' v (inForProps f ps)"
proof (cases "staticOf ps \<or> onceOf ps")
  case True
  have "assign ''staticInFor'' (PBool f)
          (assign ''staticRoot'' v (assign ''staticInFor'' (PBool f) ps))
        = assign ''staticRoot'' v (assign ''staticInFor'' (PBool f) ps)"
    by (subst assign_commute) (simp_all add: keys_assign assign_assign)
  with True show ?thesis
    by (simp add: inForProps_def staticOf_assign onceOf_assign assign_assign)
next
  case False
  then show ?thesis
    by (simp add: inForProps_def staticOf_assign onceOf_assign assign_assign)
qed

lemma markStaticRoots_idem:
  "markStaticRoots (markStaticRoots t f) f = markStaticRoots t f"
proof (induction t arbitrary: f)
  case (ASTElement tg am ps ch ic ss)
  let ?psR = "\<lambda>v. assign ''staticRoot'' (PBool v) (inForProps f ps)"
  have st: "staticOf (?psR v) = staticOf ps" for v
    by (simp add: staticOf_assign staticOf_inForProps)
  have fo: "forOf (?psR v) = forOf ps" for v
    by (simp add: forOf_assign forOf_inForProps)
  show ?case
  proof (cases "rootCrit ps ch")
    case True
    then have "rootCrit (?psR True) ch" by (simp add: rootCrit_def st)
    with True show ?thesis
      by (simp add: markStaticRoots_Element rootProps_idem)
  next
    case False
    let ?g = "\<lambda>c. markStaticRoots c (f \<or> forOf ps)"
    let ?h = "\<lambda>b. markStaticRoots b f"
    have crit: "\<not> rootCrit (?psR False) (map ?g ch)"
      using False by (cases ch) (simp_all add: rootCrit_def st nodeType_markStaticRoots)
    have ch: "map ?g (map ?g ch) = map ?g ch"
      by (rule map_idem) (rule ASTElement.IH(1))
    have ic: "map_option (map (map_prod id ?h)) (map_option (map (map_prod id ?h)) ic) =
              map_option (map (map_prod id ?h)) ic"
    proof (rule blocks_idem)
      fix bs b assume "ic = Some bs" "b \<in> set bs"
      then show "?h (?h (snd b)) = ?h (snd b)"
        by (cases b) (auto intro!: ASTElement.IH(2)[of bs b])
    qed
    have first: "markStaticRoots (ASTElement tg am ps ch ic ss) f =
          ASTElement tg am (?psR False) (map ?g ch) (map_option (map (map_prod id ?h)) ic) ss"
      using False by (simp add: markStaticRoots_Element)
    have second: "markStaticRoots (ASTElement tg am (?psR False) (map ?g ch)
                     (map_option (map (map_prod id ?h)) ic) ss) f =
          ASTElement tg am (assign ''staticRoot'' (PBool False) (inForProps f (?psR False)))
            (map ?g ch) (map_option (map (map_prod id ?h)) ic) ss"
      using crit by (simp only: markStaticRoots_Element if_False fo ch ic)
    show ?thesis by (simp only: first second rootProps_idem)
  qed
qed simp_all

lemma static_inward:
  assumes "assign ''static'' v ps = ps"
  shows "assign ''static'' v (assign ''staticRoot'' w (inForProps f ps)) =
         assign ''staticRoot'' w (inForProps f ps)"
proof -
  have k: "''static'' \<in> fst ` set ps" by (rule assign_fix_key[OF assms])
  have 1: "assign ''static'' v (assign ''staticInFor'' u ps) = assign ''staticInFor'' u ps" for u
    using assign_commute[of "''static''" "''staticInFor''" ps v u] k assms by simp
  have 2: "assign ''static'' v (inForProps f ps) = inForProps f ps"
    using 1 assms by (simp add: inForProps_def)
  have k2: "''static'' \<in> fst ` set (inForProps f ps)"
    by (rule assign_fix_key[OF 2])
  show ?thesis
    using assign_commute[of "''static''" "''staticRoot''" "inForProps f ps" v w] k2 2 by simp
qed

lemma list_all_static_roots:
  "list_all isStaticFlag (map (\<lambda>c. markStaticRoots c g) ch) = list_all isStaticFlag ch"
  by (induction ch) (simp_all add: isStaticFlag_markStaticRoots)

lemma blocksStatic_roots:
  "blocksStatic (map_option (map (map_prod id (\<lambda>b. markStaticRoots b g))) ic) = blocksStatic ic"
proof (cases ic)
  case (Some bs)
  have "list_all (\<lambda>b. isStaticFlag (snd b)) (map (map_prod id (\<lambda>b. markStaticRoots b g)) bs) =
        list_all (\<lambda>b. isStaticFlag (snd b)) bs"
    by (induction bs) (auto simp: isStaticFlag_markStaticRoots)
  with Some show ?thesis by (simp add: blocksStatic_def)
qed (simp add: blocksStatic_def)

lemma markStatic_after_roots:
  assumes ok: "keysOK options"
  shows "markStatic options anc t = t \<Longrightarrow>
         markStatic options anc (markStaticRoots t f) = markStaticRoots t f"
proof (induction t arbitrary: anc f)
  case (ASTElement tg am ps ch ic ss)
  let ?n = "ASTElement tg am ps ch ic ss"
  let ?s0 = "isStatic options anc ?n"
  let ?F = "markStatic options ((tg, forOf ps) # anc)"
  let ?G = "markStatic options anc"
  let ?g = "\<lambda>c. markStaticRoots c (f \<or> forOf ps)"
  let ?h = "\<lambda>b. markStaticRoots b f"
  let ?psR = "\<lambda>w. assign ''staticRoot'' (PBool w) (inForProps f ps)"
  have fo: "forOf (?psR w) = forOf ps" for w
    by (simp add: forOf_assign forOf_inForProps)
  show ?case
  proof (cases "isComponentLike options tg am")
    case True
    with ASTElement.prems have fx: "assign ''static'' (PBool ?s0) ps = ps"
      by (simp add: markStatic_Element)
    have s0: "isStatic options anc (ASTElement tg am (?psR w) ch' ic' ss) = ?s0"
      if "(ic' = None) = (ic = None)" for w ch' ic'
      by (rule isStatic_roots[OF ok that])
    show ?thesis
      using True
      by (cases "rootCrit ps ch")
         (simp_all add: markStaticRoots_Element markStatic_Element s0 static_inward[OF fx])
  next
    case False
    let ?B = "?s0 \<and> list_all isStaticFlag (map ?F ch) \<and>
              blocksStatic (map_option (map (map_prod id ?G)) ic)"
    from ASTElement.prems False
    have "ASTElement tg am (assign ''static'' (PBool ?B) ps) (map ?F ch)
            (map_option (map (map_prod id ?G)) ic) ss = ?n"
      by (simp only: markStatic_Element if_False)
    note inj = this[unfolded ASTNode.inject]
    have fx: "assign ''static'' (PBool ?B) ps = ps"
      and fch: "map ?F ch = ch"
      and fic: "map_option (map (map_prod id ?G)) ic = ic"
      using inj by blast+
    have B: "?B = (?s0 \<and> list_all isStaticFlag ch \<and> blocksStatic ic)"
      by (simp only: fch fic)
    show ?thesis
    proof (cases "rootCrit ps ch")
      case True
      have s0: "isStatic options anc (ASTElement tg am (?psR True) ch ic ss) = ?s0"
        by (rule isStatic_roots[OF ok refl])
      have "markStatic options anc (ASTElement tg am (?psR True) ch ic ss) =
            ASTElement tg am (assign ''static'' (PBool ?B) (?psR True)) ch ic ss"
        using False by (simp only: markStatic_Element if_False s0 fo fch fic)
      then show ?thesis
        using True by (simp only: markStaticRoots_Element if_True static_inward[OF fx])
    next
      case crit: False
      let ?ch = "map ?g ch"
      let ?ic = "map_option (map (map_prod id ?h)) ic"
      have none: "(?ic = None) = (ic = None)" by simp
      have s0: "isStatic options anc (ASTElement tg am (?psR False) ?ch ?ic ss) = ?s0"
        by (rule isStatic_roots[OF ok none])
      have ch: "map ?F ?ch = ?ch"
      proof (rule map_fixI)
        fix x assume "x \<in> set ?ch"
        then obtain c where c: "c \<in> set ch" "x = ?g c" by auto
        have "?F c = c" by (rule map_fix[OF fch c(1)])
        from ASTElement.IH(1)[OF c(1) this] c(2) show "?F x = x" by simp
      qed
      have ic: "map_option (map (map_prod id ?G)) ?ic = ?ic"
      proof (rule blocks_fixI)
        fix bs' b' assume a: "?ic = Some bs'" "b' \<in> set bs'"
        then obtain bs where bs: "ic = Some bs" "bs' = map (map_prod id ?h) bs" by auto
        with a(2) obtain b where b: "b \<in> set bs" "b' = map_prod id ?h b" by auto
        have "?G (snd b) = snd b" by (rule blocks_fix[OF fic bs(1) b(1)])
        moreover have "snd b \<in> Basic_BNFs.snds b" by (cases b) simp
        ultimately have "?G (?h (snd b)) = ?h (snd b)"
          using ASTElement.IH(2)[of bs b "snd b" anc f] bs(1) b(1) by simp
        with b(2) show "?G (snd b') = snd b'" by (cases b) simp
      qed
      have B': "(?s0 \<and> list_all isStaticFlag ?ch \<and> blocksStatic ?ic) = ?B"
        by (simp only: B list_all_static_roots blocksStatic_roots)
      have "markStatic options anc (ASTElement tg am (?psR False) ?ch ?ic ss) =
            ASTElement tg am (assign ''static'' (PBool ?B) (?psR False)) ?ch ?ic ss"
        using False by (simp only: markStatic_Element if_False s0 fo ch ic B')
      then show ?thesis
        using crit by (simp only: markStaticRoots_Element if_False static_inward[OF fx])
    qed
  qed
qed simp_all

text \<open>
  C4, as stated, fails with the web platform's allow-list: the first run marks
  \<open><div>hello</div>\<close> static and thereby adds the key \<open>static\<close>, which is not in
  the allow-list, so that \<open>isStatic\<close> is false for the element in the second run and
  its \<open>static\<close> flag turns from true to false.
\<close>

theorem optimize_twice_counterexample:
  "optimize (Some singleTextDiv) webOptions
     = Some (ASTElement ''div'' []
               [(''plain'', PBool True), (''static'', PBool True),
                (''staticInFor'', PBool False), (''staticRoot'', PBool False)]
               [ASTText [(''text'', PStr ''hello''), (''static'', PBool True)]] None [])
   \<and> optimize (optimize (Some singleTextDiv) webOptions) webOptions
     = Some (ASTElement ''div'' []
               [(''plain'', PBool True), (''static'', PBool False),
                (''staticInFor'', PBool False), (''staticRoot'', PBool False)]
               [ASTText [(''text'', PStr ''hello''), (''static'', PBool True)]] None [])"
  by code_simp

text \<open>
  C4 (amended): when the allow-listed static-key set (built from the caller's
  \<open>options.staticKeys\<close>) contains the keys \<open>static\<close>, \<open>staticRoot\<close> and
  \<open>staticInFor\<close> that a run adds, running the optimizer a second time returns the
  tree of the first run unchanged, hence the same \<open>static\<close> and \<open>staticRoot\<close> flags
  on every node.
\<close>

theorem optimize_idempotent:
  assumes "keysOK options"
  shows "optimize (optimize ast options) options = optimize ast options"
proof (cases ast)
  case (Some r)
  let ?m = "markStatic options [] r"
  have "markStatic options [] (markStaticRoots ?m False) = markStaticRoots ?m False"
    by (rule markStatic_after_roots[OF assms markStatic_idem[OF assms]])
  with Some show ?thesis
    by (simp add: optimize_def markStaticRoots_idem)
qed (simp add: optimize_def)

theorem optimize_idempotent_witness:
  "keysOK permissiveOptions \<and>
   optimize (optimize (Some twoChildrenDiv) permissiveOptions) permissiveOptions
     = optimize (Some twoChildrenDiv) permissiveOptions \<and>
   optimize (Some twoChildrenDiv) permissiveOptions
     = Some (ASTElement ''div'' []
               [(''plain'', PBool True), (''static'', PBool True),
                (''staticInFor'', PBool False), (''staticRoot'', PBool True)]
               [markedLeaf ''p'', markedLeaf ''p''] None [])"
proof -
  have k: "keysOK permissiveOptions" by code_simp
  have v: "optimize (Some twoChildrenDiv) permissiveOptions
     = Some (ASTElement ''div'' []
               [(''plain'', PBool True), (''static'', PBool True),
                (''staticInFor'', PBool False), (''staticRoot'', PBool True)]
               [markedLeaf ''p'', markedLeaf ''p''] None [])" by code_simp
  show ?thesis
    using k optimize_idempotent[OF k, of "Some twoChildrenDiv"] v by simp
qed

subsection \<open>The traversal of the second pass\<close>

text \<open>
  C5, as stated, fails: \<open>markStaticRoots\<close> returns right after
  \<open>node.staticRoot = true\<close>.  On the marked \<open><div><p>...</p></div>\<close> the child \<open>p\<close>
  is left as it was, whereas a visit would have changed it.
\<close>

theorem recursion_counterexample:
  "staticRootCriterion (ASTElement ''div'' []
       [(''plain'', PBool True), (''static'', PBool True)] [nestedInner] None [])
   \<and> children (markStaticRoots (ASTElement ''div'' []
       [(''plain'', PBool True), (''static'', PBool True)] [nestedInner] None []) False)
     = [nestedInner]
   \<and> markStaticRoots nestedInner False \<noteq> nestedInner"
  by code_simp

text \<open>
  C5 (amended): in the second pass the traversal goes into the children of a node
  and into its \<open>v-else(-if)\<close> blocks exactly when the node was not marked
  \<open>staticRoot = true\<close>; a node that is marked a static root ends the traversal of
  its subtree, and its children and blocks are left untouched.
\<close>

theorem markStaticRoots_recursion:
  "children (markStaticRoots node isInFor) =
     (if staticRootCriterion node then children node
      else map (\<lambda>c. markStaticRoots c (isInFor \<or> truthy (getProp node ''for''))) (children node))
   \<and> ifConditions (markStaticRoots node isInFor) =
     (if staticRootCriterion node then ifConditions node
      else map_option (map (map_prod id (\<lambda>b. markStaticRoots b isInFor))) (ifConditions node))"
proof (cases node)
  case (ASTElement tg am ps ch ic ss)
  then show ?thesis
    by (simp add: markStaticRoots_Element staticRootCriterion_Element forOf_def getProp_def)
qed (simp_all add: staticRootCriterion_def)

theorem markStaticRoots_recursion_witness:
  "children (markStaticRoots (ASTElement ''div'' []
       [(''plain'', PBool True), (''static'', PBool True)] [nestedInner] None []) False)
     = [nestedInner]
   \<and> children (markStaticRoots (ASTElement ''div'' []
       [(''plain'', PBool True), (''static'', PBool False)] [nestedInner] None []) False)
     = [markStaticRoots nestedInner False]"
proof -
  let ?a = "ASTElement ''div'' [] [(''plain'', PBool True), (''static'', PBool True)]
              [nestedInner] None []"
  let ?b = "ASTElement ''div'' [] [(''plain'', PBool True), (''static'', PBool False)]
              [nestedInner] None []"
  have a: "staticRootCriterion ?a = True" by code_simp
  have b: "staticRootCriterion ?b = False" by code_simp
  have f: "truthy (getProp ?b ''for'') = False" by code_simp
  show ?thesis
    using markStaticRoots_recursion[of ?a False] markStaticRoots_recursion[of ?b False]
    by (simp only: a b f if_True if_False children.simps list.map simp_thms)
qed


section \<open>Properties of the list diff\<close>

subsection \<open>The fallback search for an unkeyed node\<close>

declare findIdxInOld.simps [simp del] firstMatchInclusive.simps [simp del]

lemma findIdxInOld_inclusive:
  "findIdxInOld fs node oldCh start end' = firstMatchInclusive fs node oldCh start (end' - 1)"
proof (induction fs node oldCh start end' rule: findIdxInOld.induct)
  case (1 fs node oldCh start end')
  show ?case
  proof (cases "start < end'")
    case True
    show ?thesis
    proof (cases "nth_opt oldCh start")
      case None
      with True 1(1) show ?thesis
        by (subst findIdxInOld.simps, subst firstMatchInclusive.simps) simp
    next
      case (Some c)
      show ?thesis
      proof (cases "sameVnode fs node c")
        case (Inl e)
        with True Some show ?thesis
          by (subst findIdxInOld.simps, subst firstMatchInclusive.simps) simp
      next
        case (Inr same)
        with True Some 1(2)[of c same] show ?thesis
          by (subst findIdxInOld.simps, subst firstMatchInclusive.simps) simp
      qed
    qed
  next
    case False
    then show ?thesis
      by (subst findIdxInOld.simps, subst firstMatchInclusive.simps) simp
  qed
qed

lemma findIdxInOld_found:
  "findIdxInOld fs node oldCh start end' = Inr (Some i) \<Longrightarrow>
   start \<le> i \<and> i < end' \<and> sameNodeAt fs node oldCh i \<and>
   (\<forall>j. start \<le> j \<and> j < i \<longrightarrow> \<not> sameNodeAt fs node oldCh j)"
proof (induction fs node oldCh start end' rule: findIdxInOld.induct)
  case (1 fs node oldCh start end')
  from 1(3) have lt: "start < end'"
    by (subst (asm) findIdxInOld.simps) (simp split: if_splits)
  show ?case
  proof (cases "nth_opt oldCh start")
    case None
    with lt 1(3) have "findIdxInOld fs node oldCh (start + 1) end' = Inr (Some i)"
      by (subst (asm) findIdxInOld.simps) simp
    from 1(1)[OF lt None this] have a: "start + 1 \<le> i" "i < end'" "sameNodeAt fs node oldCh i"
      and b: "\<forall>j. start + 1 \<le> j \<and> j < i \<longrightarrow> \<not> sameNodeAt fs node oldCh j" by auto
    have ns: "\<not> sameNodeAt fs node oldCh start" using None by (simp add: sameNodeAt_def)
    have "\<not> sameNodeAt fs node oldCh j" if "start \<le> j" "j < i" for j
    proof (cases "j = start")
      case True
      with ns show ?thesis by simp
    next
      case False
      with that have "start + 1 \<le> j" by simp
      with b that show ?thesis by simp
    qed
    with a show ?thesis by simp
  next
    case (Some c)
    show ?thesis
    proof (cases "sameVnode fs node c")
      case (Inl e)
      with lt Some 1(3) show ?thesis
        by (subst (asm) findIdxInOld.simps) simp
    next
      case (Inr same)
      show ?thesis
      proof (cases same)
        case True
        with lt Some Inr 1(3) have "i = start"
          by (subst (asm) findIdxInOld.simps) simp
        with lt Some Inr True show ?thesis by (auto simp: sameNodeAt_def)
      next
        case False
        with lt Some Inr 1(3) have "findIdxInOld fs node oldCh (start + 1) end' = Inr (Some i)"
          by (subst (asm) findIdxInOld.simps) simp
        from 1(2)[OF lt Some Inr False this]
        have a: "start + 1 \<le> i" "i < end'" "sameNodeAt fs node oldCh i"
          and b: "\<forall>j. start + 1 \<le> j \<and> j < i \<longrightarrow> \<not> sameNodeAt fs node oldCh j" by auto
        have ns: "\<not> sameNodeAt fs node oldCh start" using Some Inr False by (simp add: sameNodeAt_def)
        have "\<not> sameNodeAt fs node oldCh j" if "start \<le> j" "j < i" for j
        proof (cases "j = start")
          case True
          with ns show ?thesis by simp
        next
          case False
          with that have "start + 1 \<le> j" by simp
          with b that show ?thesis by simp
        qed
        with a show ?thesis by simp
      qed
    qed
  qed
qed

lemma findIdxInOld_not_found:
  "findIdxInOld fs node oldCh start end' = Inr None \<Longrightarrow>
   (\<forall>j. start \<le> j \<and> j < end' \<longrightarrow> \<not> sameNodeAt fs node oldCh j)"
proof (induction fs node oldCh start end' rule: findIdxInOld.induct)
  case (1 fs node oldCh start end')
  show ?case
  proof (cases "start < end'")
    case False
    then show ?thesis by auto
  next
    case lt: True
    show ?thesis
    proof (cases "nth_opt oldCh start")
      case None
      with lt 1(3) have "findIdxInOld fs node oldCh (start + 1) end' = Inr None"
        by (subst (asm) findIdxInOld.simps) simp
      from 1(1)[OF lt None this]
      have b: "\<forall>j. start + 1 \<le> j \<and> j < end' \<longrightarrow> \<not> sameNodeAt fs node oldCh j" .
      have ns: "\<not> sameNodeAt fs node oldCh start" using None by (simp add: sameNodeAt_def)
      have "\<not> sameNodeAt fs node oldCh j" if "start \<le> j" "j < end'" for j
      proof (cases "j = start")
        case True
        with ns show ?thesis by simp
      next
        case False
        with that have "start + 1 \<le> j" by simp
        with b that show ?thesis by simp
      qed
      then show ?thesis by simp
    next
      case (Some c)
      show ?thesis
      proof (cases "sameVnode fs node c")
        case (Inl e)
        with lt Some 1(3) show ?thesis
          by (subst (asm) findIdxInOld.simps) simp
      next
        case (Inr same)
        show ?thesis
        proof (cases same)
          case True
          with lt Some Inr 1(3) show ?thesis
            by (subst (asm) findIdxInOld.simps) simp
        next
          case False
          with lt Some Inr 1(3) have "findIdxInOld fs node oldCh (start + 1) end' = Inr None"
            by (subst (asm) findIdxInOld.simps) simp
          from 1(2)[OF lt Some Inr False this]
          have b: "\<forall>j. start + 1 \<le> j \<and> j < end' \<longrightarrow> \<not> sameNodeAt fs node oldCh j" .
          have ns: "\<not> sameNodeAt fs node oldCh start" using Some Inr False by (simp add: sameNodeAt_def)
          have "\<not> sameNodeAt fs node oldCh j" if "start \<le> j" "j < end'" for j
          proof (cases "j = start")
            case True
            with ns show ?thesis by simp
          next
            case False
            with that have "start + 1 \<le> j" by simp
            with b that show ?thesis by simp
          qed
          then show ?thesis by simp
        qed
      qed
    qed
  qed
qed

lemma findIdxInOld_range:
  "(\<forall>j. start \<le> j \<and> j < end' \<longrightarrow> nth_opt oldCh' j = nth_opt oldCh j) \<Longrightarrow>
   findIdxInOld fs node oldCh' start end' = findIdxInOld fs node oldCh start end'"
proof (induction fs node oldCh start end' rule: findIdxInOld.induct)
  case (1 fs node oldCh start end')
  show ?case
  proof (cases "start < end'")
    case False
    then show ?thesis
      by (subst findIdxInOld.simps, subst (2) findIdxInOld.simps) simp
  next
    case lt: True
    with 1(3) have eq: "nth_opt oldCh' start = nth_opt oldCh start" by simp
    from 1(3) have rest: "\<forall>j. start + 1 \<le> j \<and> j < end' \<longrightarrow> nth_opt oldCh' j = nth_opt oldCh j"
      by simp
    show ?thesis
    proof (cases "nth_opt oldCh start")
      case None
      with lt eq 1(1)[OF lt None rest] show ?thesis
        by (subst findIdxInOld.simps, subst (2) findIdxInOld.simps) simp
    next
      case (Some c)
      show ?thesis
      proof (cases "sameVnode fs node c")
        case (Inl e)
        with lt eq Some show ?thesis
          by (subst findIdxInOld.simps, subst (2) findIdxInOld.simps) simp
      next
        case (Inr same)
        show ?thesis
        proof (cases same)
          case True
          with lt eq Some Inr show ?thesis
            by (subst findIdxInOld.simps, subst (2) findIdxInOld.simps) simp
        next
          case False
          with lt eq Some Inr 1(2)[OF lt Some Inr False rest] show ?thesis
            by (subst findIdxInOld.simps, subst (2) findIdxInOld.simps) simp
        qed
      qed
    qed
  qed
qed

text \<open>
  C7, as stated, fails: the loop of \<open>findIdxInOld\<close> is \<open>for (let i = start; i < end; i++)\<close>,
  called with \<open>end = oldEndIdx\<close>, so the entry at \<open>oldEndIdx\<close> is not examined.  With the
  old children \<open>[div, resolved async component]\<close>, \<open>start = 0\<close>, \<open>end = 1\<close> and, as the
  new-start node, an unkeyed async placeholder of the same factory (a vnode that was
  hydrated before, attached to the live node 7), the entry at index 1 is a same-node
  match for the new-start node and the search through \<open>oldEndIdx\<close> inclusive finds it,
  but \<open>findIdxInOld\<close> looks at index 0 only and returns \<open>undefined\<close>.
\<close>

theorem findIdxInOld_skips_end:
  "sameVnode noFactories (asyncPlaceholderVNode 9 None (Some 7))
       (resolvedAsyncVNode 2 None (Some 5)) = Inr True
   \<and> firstMatchInclusive noFactories (asyncPlaceholderVNode 9 None (Some 7))
       [Some (elementVNode 1 ''div'' None (Some 4)), Some (resolvedAsyncVNode 2 None (Some 5))] 0 1
     = Inr (Some 1)
   \<and> findIdxInOld noFactories (asyncPlaceholderVNode 9 None (Some 7))
       [Some (elementVNode 1 ''div'' None (Some 4)), Some (resolvedAsyncVNode 2 None (Some 5))] 0 1
     = Inr None"
  by (simp add: sameVnode_def strictEqualKey_def sameInputType_def noFactories_def
        asyncPlaceholderVNode_def resolvedAsyncVNode_def elementVNode_def nth_opt_def
        findIdxInOld.simps firstMatchInclusive.simps)

text \<open>
  C7 (amended): the fallback search \<open>findIdxInOld (node, oldCh, start, end)\<close>, which the
  list diff calls with \<open>start = oldStartIdx\<close> and \<open>end = oldEndIdx\<close>, examines the indices
  from \<open>start\<close> up to, but not including, \<open>end\<close>.  When it returns an index, that index
  lies in this range, its entry is defined and is a same-node match for the node, and
  no entry before it in the range is one; when it returns \<open>undefined\<close>, no entry in the
  range is a match.  The result does not depend on the entry at \<open>end\<close> or on any entry
  outside the range; it is the result of the inclusive search from \<open>start\<close> through
  \<open>end - 1\<close>.
\<close>

theorem findIdxInOld_scans_before_end:
  "(\<forall>i. findIdxInOld fs node oldCh start end' = Inr (Some i) \<longrightarrow>
        start \<le> i \<and> i < end' \<and> sameNodeAt fs node oldCh i \<and>
        (\<forall>j. start \<le> j \<and> j < i \<longrightarrow> \<not> sameNodeAt fs node oldCh j)) \<and>
   (findIdxInOld fs node oldCh start end' = Inr None \<longrightarrow>
        (\<forall>j. start \<le> j \<and> j < end' \<longrightarrow> \<not> sameNodeAt fs node oldCh j)) \<and>
   (\<forall>oldCh'. (\<forall>j. start \<le> j \<and> j < end' \<longrightarrow> nth_opt oldCh' j = nth_opt oldCh j) \<longrightarrow>
        findIdxInOld fs node oldCh' start end' = findIdxInOld fs node oldCh start end') \<and>
   findIdxInOld fs node oldCh start end' = firstMatchInclusive fs node oldCh start (end' - 1)"
  using findIdxInOld_found[of fs node oldCh start end'] findIdxInOld_not_found[of fs node oldCh start end']
    findIdxInOld_range[of start end' _ oldCh fs node] findIdxInOld_inclusive[of fs node oldCh start end']
  by blast

theorem findIdxInOld_scans_before_end_witness:
  "findIdxInOld noFactories (elementVNode 9 ''p'' None None)
       [Some (elementVNode 1 ''div'' None (Some 4)), Some (elementVNode 2 ''p'' None (Some 5)),
        Some (elementVNode 3 ''p'' None (Some 6))] 0 2 = Inr (Some 1) \<and>
   sameNodeAt noFactories (elementVNode 9 ''p'' None None)
       [Some (elementVNode 1 ''div'' None (Some 4)), Some (elementVNode 2 ''p'' None (Some 5)),
        Some (elementVNode 3 ''p'' None (Some 6))] 1 \<and>
   \<not> sameNodeAt noFactories (elementVNode 9 ''p'' None None)
       [Some (elementVNode 1 ''div'' None (Some 4)), Some (elementVNode 2 ''p'' None (Some 5)),
        Some (elementVNode 3 ''p'' None (Some 6))] 0 \<and>
   findIdxInOld noFactories (elementVNode 9 ''p'' None None)
       [Some (elementVNode 1 ''div'' None (Some 4)), Some (elementVNode 2 ''p'' None (Some 5)),
        Some (elementVNode 3 ''p'' None (Some 6))] 0 2
     = findIdxInOld noFactories (elementVNode 9 ''p'' None None)
       [Some (elementVNode 1 ''div'' None (Some 4)), Some (elementVNode 2 ''p'' None (Some 5))] 0 2"
  using findIdxInOld_scans_before_end[of noFactories "elementVNode 9 ''p'' None None"
      "[Some (elementVNode 1 ''div'' None (Some 4)), Some (elementVNode 2 ''p'' None (Some 5)),
        Some (elementVNode 3 ''p'' None (Some 6))]" 0 2]
  by (simp add: sameVnode_def strictEqualKey_def sameInputType_def noFactories_def elementVNode_def
        nth_opt_def sameNodeAt_def findIdxInOld.simps)

subsection \<open>Rotation of three keyed children\<close>


lemma oplog_logOp [simp]: "oplog (logOp op h) = oplog h @ [op]"
  by (simp add: logOp_def)

lemma other_logOp [simp]:
  "parentNode (logOp op h) = parentNode h" "childNodes (logOp op h) = childNodes h"
  "nextNode (logOp op h) = nextNode h" "nextUid (logOp op h) = nextUid h"
  by (simp_all add: logOp_def)

lemma set_elm_sel [simp]:
  "velm (set_elm e v) = e" "vkey (set_elm e v) = vkey v" "vtext (set_elm e v) = vtext v"
  "vchildren (set_elm e v) = vchildren v" "uid (set_elm e v) = uid v"
  "vIsStatic (set_elm e v) = vIsStatic v" "vIsCloned (set_elm e v) = vIsCloned v"
  "vIsOnce (set_elm e v) = vIsOnce v" "vtag (set_elm e v) = vtag v" "vdata (set_elm e v) = vdata v"
  by (cases v; simp)+

lemma set_children_sel [simp]:
  "velm (set_children c v) = velm v" "vkey (set_children c v) = vkey v"
  by (cases v; simp)+















lemma oplog_detach [simp]: "oplog (detach c h) = oplog h"
  by (simp add: detach_def split: option.splits)







subsection \<open>Equal keys, different tags\<close>


lemma nextNode_detach [simp]: "nextNode (detach c h) = nextNode h"
  by (simp add: detach_def split: option.splits)












lemma sameVnode_placeholder:
  assumes "vkey x = Some k" "vkey y = Some k" "k \<noteq> KNum ''NaN''"
    and "vIsAsyncPlaceholder x" "vAsyncFactory x = Some f" "vAsyncFactory y = Some f"
    and "\<not> errorDefined (fs f)"
  shows "sameVnode fs x y = Inr True"
  using assms by (simp add: sameVnode_def strictEqualKey_def)





section \<open>Properties of the code generator for conditionals\<close>

lemma genIfConditions_render:
  "genIfConditions gen altEmpty conditions state =
     (render (fst (genIfConditionsExpr gen altEmpty conditions state)),
      snd (genIfConditionsExpr gen altEmpty conditions state))"
proof (induction conditions arbitrary: state)
  case Nil
  show ?case by simp
next
  case (Cons c conditions)
  obtain exp block where c: "c = (exp, block)" by (cases c)
  show ?case
    using Cons.IH by (simp add: c split: prod.splits)
qed

lemma selectBranch_leaf:
  "selectBranch env (fst (genIfConditionsExpr gen altEmpty conditions state)) \<noteq> Ternary c a b"
proof (induction conditions arbitrary: state)
  case Nil
  show ?case by simp
next
  case (Cons cnd conditions)
  obtain exp block where c: "cnd = (exp, block)" by (cases cnd)
  obtain branch state1 where g: "gen block state = (branch, state1)" by (cases "gen block state")
  obtain rest state2 where r: "genIfConditionsExpr gen altEmpty conditions state1 = (rest, state2)"
    by (cases "genIfConditionsExpr gen altEmpty conditions state1")
  show ?case
    using Cons.IH[of state1] by (simp add: c g r)
qed

text \<open>
  C6, as stated, fails when \<open>genIfConditions\<close> is called with \<open>altEmpty\<close> supplied.
  \<open>genScopedSlot\<close> makes such a call, \<open>genIf (el, state, genScopedSlot, `null`)\<close>, for a
  \<open>v-if\<close> on a scoped slot that is not written with the legacy \<open>slot-scope\<close> attribute:
  for the chain \<open>if a\<close> without \<open>else\<close> the generated text is \<open>(a)?_c(x):null\<close>, and
  with \<open>a\<close> false it evaluates to \<open>null\<close>, not to \<open>_e()\<close>.
\<close>

theorem genIfConditions_counterexample:
  "fst (genIfConditions exampleGen (Some ''null'') [(Some ''a'', ''x'')] 0) = ''(a)?_c(x):null''
   \<and> selectBranch (\<lambda>c. False)
         (fst (genIfConditionsExpr exampleGen (Some ''null'') [(Some ''a'', ''x'')] 0))
       = EmptyCode ''null''"
  by (simp add: exampleGen_def truthyString_def emptySentinel_def)

text \<open>
  C6 (amended): for every list of conditions that \<open>genIfConditions\<close> is given (\<open>if A\<close>,
  \<open>elseif B\<close>, optional \<open>else\<close>, and any longer or shorter one), with any generator for
  the blocks and any \<open>altEmpty\<close>, the generated text is the nested conditional
  \<open>(A)?a:(B)?b:...\<close>, and for each assignment of truth values to the conditions it
  selects exactly one code path: the code of the block of the first true condition,
  else the code of the \<open>else\<close> block, and, when no condition is true and there is no
  \<open>else\<close>, the code for no block, which is \<open>altEmpty\<close> when the caller passes a non-empty
  one and the empty-node sentinel \<open>_e()\<close> otherwise.  (The statement is about
  \<open>genIfConditions\<close>, which \<open>genIf\<close> calls; a \<open>v-if\<close> on a template with the legacy
  \<open>slot-scope\<close> attribute is written out by \<open>genScopedSlot\<close> itself and is not covered.)
\<close>

theorem genIfConditions_selects:
  "fst (genIfConditions gen altEmpty conditions state)
     = render (fst (genIfConditionsExpr gen altEmpty conditions state))
   \<and> branchOf (selectBranch env (fst (genIfConditionsExpr gen altEmpty conditions state)))
     = chosenBlock env conditions
   \<and> (chosenBlock env conditions = None \<longrightarrow>
        selectBranch env (fst (genIfConditionsExpr gen altEmpty conditions state))
          = EmptyCode (if truthyString altEmpty then the altEmpty else ''_e()''))"
proof (induction conditions arbitrary: state)
  case Nil
  show ?case by (simp add: emptySentinel_def)
next
  case (Cons cnd conditions)
  obtain exp block where c: "cnd = (exp, block)" by (cases cnd)
  obtain branch state1 where g: "gen block state = (branch, state1)" by (cases "gen block state")
  obtain rest state2 where r: "genIfConditionsExpr gen altEmpty conditions state1 = (rest, state2)"
    by (cases "genIfConditionsExpr gen altEmpty conditions state1")
  have rendered: "fst (genIfConditions gen altEmpty (cnd # conditions) state)
     = render (fst (genIfConditionsExpr gen altEmpty (cnd # conditions) state))"
    by (simp add: genIfConditions_render[of gen altEmpty "cnd # conditions" state])
  have sel: "branchOf (selectBranch env (fst (genIfConditionsExpr gen altEmpty (cnd # conditions) state)))
     = chosenBlock env (cnd # conditions)"
    using Cons.IH[of state1] by (simp add: c g r)
  have emp: "chosenBlock env (cnd # conditions) = None \<longrightarrow>
        selectBranch env (fst (genIfConditionsExpr gen altEmpty (cnd # conditions) state))
          = EmptyCode (if truthyString altEmpty then the altEmpty else ''_e()'')"
    using Cons.IH[of state1] by (simp add: c g r)
  from rendered sel emp show ?case by blast
qed

theorem genIfConditions_selects_witness:
  "fst (genIfConditions exampleGen None [(Some ''A'', ''a''), (Some ''B'', ''b'')] 0)
     = ''(A)?_c(a):(B)?_c(b):_e()''
   \<and> chosenBlock (\<lambda>c. False) [(Some ''A'', ''a''), (Some ''B'', ''b'')] = None
   \<and> selectBranch (\<lambda>c. False)
        (fst (genIfConditionsExpr exampleGen None [(Some ''A'', ''a''), (Some ''B'', ''b'')] 0))
     = EmptyCode ''_e()''
   \<and> branchOf (selectBranch (\<lambda>c. c = ''B'')
        (fst (genIfConditionsExpr exampleGen None
               [(Some ''A'', ''a''), (Some ''B'', ''b''), (None, ''c'')] 0)))
     = Some ''b''
   \<and> branchOf (selectBranch (\<lambda>c. False)
        (fst (genIfConditionsExpr exampleGen None
               [(Some ''A'', ''a''), (Some ''B'', ''b''), (None, ''c'')] 0)))
     = Some ''c''"
  using genIfConditions_selects[of exampleGen None "[(Some ''A'', ''a''), (Some ''B'', ''b'')]" 0
          "\<lambda>c. False"]
        genIfConditions_selects[of exampleGen None
          "[(Some ''A'', ''a''), (Some ''B'', ''b''), (None, ''c'')]" 0 "\<lambda>c. c = ''B''"]
        genIfConditions_selects[of exampleGen None
          "[(Some ''A'', ''a''), (Some ''B'', ''b''), (None, ''c'')]" 0 "\<lambda>c. False"]
  by (simp add: exampleGen_def truthyString_def emptySentinel_def)


section \<open>The closed element has no trailing whitespace\<close>

declare popWhitespace.simps [simp del]





lemma trimEndingWhitespace_inPre: "trimEndingWhitespace True el = el"
  by (simp add: trimEndingWhitespace_def)





section \<open>Static trees are cached, and rendered afresh inside a loop\<close>

declare showNat.simps [simp del]























section \<open>What the render boundary returns\<close>

lemma vm_render_returns:
  "renderOutcome vm = Returns x \<Longrightarrow>
   vm_render p vm =
     (case (case x of AnArray [y] \<Rightarrow> y | _ \<Rightarrow> x) of
        AVNode v \<Rightarrow> \<lparr> rootVnode = v, rootParent = parentVnode vm, diagnostics = [], reported = [] \<rparr>
      | AnArray ys \<Rightarrow> \<lparr> rootVnode = createEmptyVNode, rootParent = parentVnode vm,
                        diagnostics = (if p then [] else [multipleRootsWarning]), reported = [] \<rparr>
      | NotAVNode \<Rightarrow> \<lparr> rootVnode = createEmptyVNode, rootParent = parentVnode vm,
                        diagnostics = [], reported = [] \<rparr>)"
  by (simp add: vm_render_def tryRender_def split: Rendered.splits list.splits)

lemma vm_render_previous:
  "tryRender p vm = (previousTree vm, errs) \<Longrightarrow>
   vm_render p vm =
     \<lparr> rootVnode = (case prevVnode vm of Some v \<Rightarrow> v | None \<Rightarrow> createEmptyVNode),
       rootParent = parentVnode vm, diagnostics = [], reported = errs \<rparr>"
  by (simp add: vm_render_def previousTree_def split: option.splits)

text \<open>
  C9, as stated, fails: a render function that returns \<open>undefined\<close> (a value that is
  neither a vnode nor an array) gives the empty placeholder without any diagnostic,
  also outside production; and in a production build a render function that throws
  gives the previous tree although the component supplies an error-render hook.
\<close>

theorem render_boundary_counterexample:
  "vm_render False returnsNothing
     = \<lparr> rootVnode = createEmptyVNode, rootParent = None, diagnostics = [], reported = [] \<rparr> \<and>
   rootVnode (vm_render True throwingVm) = elementVNode 3 ''div'' None None"
  by (simp add: vm_render_def tryRender_def returnsNothing_def throwingVm_def previousTree_def)

text \<open>
  C9 (amended): the render boundary returns one vnode in every case, with
  \<open>_parentVnode\<close> as its parent.  A vnode is returned as it is, and so is the only
  element of an array of length 1 if it is a vnode.  Any other array gives the empty
  placeholder, with the warning outside production only; a value that is neither a
  vnode nor an array gives the placeholder without a warning.  When the render
  function throws, the error is reported; in production, or without an error-render
  hook, the result is the previous tree, or the placeholder if there is none; outside
  production with a hook, the output of the hook is treated as a returned value is,
  and if the hook throws too that error is reported as well and the result is the
  previous tree or the placeholder.
\<close>

theorem render_boundary:
  "(\<forall>v. renderOutcome vm = Returns (AVNode v) \<longrightarrow>
        vm_render p vm = \<lparr> rootVnode = v, rootParent = parentVnode vm,
                            diagnostics = [], reported = [] \<rparr>) \<and>
   (\<forall>v. renderOutcome vm = Returns (AnArray [AVNode v]) \<longrightarrow>
        vm_render p vm = \<lparr> rootVnode = v, rootParent = parentVnode vm,
                            diagnostics = [], reported = [] \<rparr>) \<and>
   (\<forall>xs. renderOutcome vm = Returns (AnArray xs) \<and> length xs \<noteq> 1 \<longrightarrow>
        vm_render p vm = \<lparr> rootVnode = createEmptyVNode, rootParent = parentVnode vm,
                            diagnostics = (if p then [] else [multipleRootsWarning]),
                            reported = [] \<rparr>) \<and>
   (\<forall>x. renderOutcome vm = Returns (AnArray [x]) \<and> (\<forall>v. x \<noteq> AVNode v) \<longrightarrow>
        vm_render p vm = \<lparr> rootVnode = createEmptyVNode, rootParent = parentVnode vm,
                            diagnostics = (if \<not> p \<and> isArray x then [multipleRootsWarning] else []),
                            reported = [] \<rparr>) \<and>
   (renderOutcome vm = Returns NotAVNode \<longrightarrow>
        vm_render p vm = \<lparr> rootVnode = createEmptyVNode, rootParent = parentVnode vm,
                            diagnostics = [], reported = [] \<rparr>) \<and>
   (\<forall>e. renderOutcome vm = Throws e \<and> (p \<or> renderErrorHook vm = None) \<longrightarrow>
        vm_render p vm =
          \<lparr> rootVnode = (case prevVnode vm of Some v \<Rightarrow> v | None \<Rightarrow> createEmptyVNode),
            rootParent = parentVnode vm, diagnostics = [], reported = [(e, ''render'')] \<rparr>) \<and>
   (\<forall>e f y. renderOutcome vm = Throws e \<and> \<not> p \<and> renderErrorHook vm = Some f \<and>
        f e = Returns y \<longrightarrow>
        vm_render p vm
          = (vm_render p (vm\<lparr> renderOutcome := Returns y \<rparr>))\<lparr> reported := [(e, ''render'')] \<rparr>) \<and>
   (\<forall>e f e'. renderOutcome vm = Throws e \<and> \<not> p \<and> renderErrorHook vm = Some f \<and>
        f e = Throws e' \<longrightarrow>
        vm_render p vm =
          \<lparr> rootVnode = (case prevVnode vm of Some v \<Rightarrow> v | None \<Rightarrow> createEmptyVNode),
            rootParent = parentVnode vm, diagnostics = [],
            reported = [(e, ''render''), (e', ''renderError'')] \<rparr>)"
proof (intro conjI allI impI)
  fix v assume "renderOutcome vm = Returns (AVNode v)"
  then show "vm_render p vm = \<lparr> rootVnode = v, rootParent = parentVnode vm,
                            diagnostics = [], reported = [] \<rparr>"
    by (simp add: vm_render_returns)
next
  fix v assume "renderOutcome vm = Returns (AnArray [AVNode v])"
  then show "vm_render p vm = \<lparr> rootVnode = v, rootParent = parentVnode vm,
                            diagnostics = [], reported = [] \<rparr>"
    by (simp add: vm_render_returns)
next
  fix xs assume "renderOutcome vm = Returns (AnArray xs) \<and> length xs \<noteq> 1"
  then show "vm_render p vm = \<lparr> rootVnode = createEmptyVNode, rootParent = parentVnode vm,
                            diagnostics = (if p then [] else [multipleRootsWarning]),
                            reported = [] \<rparr>"
    by (cases xs) (auto simp: vm_render_returns split: list.splits)
next
  fix x assume "renderOutcome vm = Returns (AnArray [x]) \<and> (\<forall>v. x \<noteq> AVNode v)"
  then show "vm_render p vm = \<lparr> rootVnode = createEmptyVNode, rootParent = parentVnode vm,
                            diagnostics = (if \<not> p \<and> isArray x then [multipleRootsWarning] else []),
                            reported = [] \<rparr>"
    by (cases x) (auto simp: vm_render_returns)
next
  assume "renderOutcome vm = Returns NotAVNode"
  then show "vm_render p vm = \<lparr> rootVnode = createEmptyVNode, rootParent = parentVnode vm,
                            diagnostics = [], reported = [] \<rparr>"
    by (simp add: vm_render_returns)
next
  fix e assume "renderOutcome vm = Throws e \<and> (p \<or> renderErrorHook vm = None)"
  then have "tryRender p vm = (previousTree vm, [(e, ''render'')])"
    by (auto simp: tryRender_def)
  then show "vm_render p vm =
          \<lparr> rootVnode = (case prevVnode vm of Some v \<Rightarrow> v | None \<Rightarrow> createEmptyVNode),
            rootParent = parentVnode vm, diagnostics = [], reported = [(e, ''render'')] \<rparr>"
    by (rule vm_render_previous)
next
  fix e f y
  assume "renderOutcome vm = Throws e \<and> \<not> p \<and> renderErrorHook vm = Some f \<and> f e = Returns y"
  then show "vm_render p vm
          = (vm_render p (vm\<lparr> renderOutcome := Returns y \<rparr>))\<lparr> reported := [(e, ''render'')] \<rparr>"
    by (simp add: vm_render_def tryRender_def split: Rendered.splits list.splits)
next
  fix e f e'
  assume "renderOutcome vm = Throws e \<and> \<not> p \<and> renderErrorHook vm = Some f \<and> f e = Throws e'"
  then have "tryRender p vm = (previousTree vm, [(e, ''render''), (e', ''renderError'')])"
    by (auto simp: tryRender_def)
  then show "vm_render p vm =
          \<lparr> rootVnode = (case prevVnode vm of Some v \<Rightarrow> v | None \<Rightarrow> createEmptyVNode),
            rootParent = parentVnode vm, diagnostics = [],
            reported = [(e, ''render''), (e', ''renderError'')] \<rparr>"
    by (rule vm_render_previous)
qed

theorem render_boundary_witness:
  "renderOutcome throwingVm = Throws ''boom'' \<and>
   vm_render False throwingVm
     = \<lparr> rootVnode = elementVNode 7 ''pre'' None None, rootParent = None, diagnostics = [],
         reported = [(''boom'', ''render'')] \<rparr> \<and>
   vm_render True throwingVm
     = \<lparr> rootVnode = elementVNode 3 ''div'' None None, rootParent = None, diagnostics = [],
         reported = [(''boom'', ''render'')] \<rparr> \<and>
   vm_render False (throwingVm\<lparr> renderOutcome := Returns (AnArray []) \<rparr>)
     = \<lparr> rootVnode = createEmptyVNode, rootParent = None,
         diagnostics = [multipleRootsWarning], reported = [] \<rparr>"
  using render_boundary[of throwingVm False] render_boundary[of throwingVm True]
    render_boundary[of "throwingVm\<lparr> renderOutcome := Returns (AnArray []) \<rparr>" False]
  by (simp add: throwingVm_def vm_render_def tryRender_def)

end
